theory Spec2Isabelle
  imports Complex_Main
begin

section \<open>Data model of the canvas component\<close>

text \<open>
  The component is written in TypeScript; every \<open>number\<close> is modelled as a real, so the
  theorems below are about the formulas of the code in exact arithmetic. Where a JavaScript
  operation leaves the reals (\<open>0 / 0\<close> and \<open>n % 0\<close> are \<open>NaN\<close>), the model says so with an
  explicit error or \<open>None\<close> instead of relying on the value HOL gives to \<open>x / 0\<close>.
  The velocity limit of \<open>updateSpherePosition\<close> is the one place where the rounding of
  doubles decides a property, and its blocks are embedded a second time in double
  arithmetic. \<open>Math.random()\<close> is an argument of the function that calls it.
\<close>

datatype AgentState =
  disconnected | connecting | initializing | listening | thinking | speaking

text \<open>
  A \<open>ColorPalette\<close> object literal: its keys in insertion order, as \<open>Object.keys\<close>
  enumerates them, each with its colour string.
\<close>

type_synonym ColorPalette = "(string \<times> string) list"

definition object_keys :: "ColorPalette \<Rightarrow> string list" where
  "object_keys colors = map fst colors"

definition statePalettes :: "(AgentState \<times> ColorPalette) list" where
  "statePalettes =
    [(disconnected,
        [(''primary'', ''#D3E4FD''), (''secondary'', ''#9b87f5''), (''tertiary'', ''#E5DEFF''),
         (''accent'', ''#8B5CF6''), (''highlight'', ''#FFDEE2'')]),
     (connecting,
        [(''primary'', ''#D3E4FD''), (''secondary'', ''#7E69AB''), (''tertiary'', ''#E5DEFF''),
         (''accent'', ''#8B5CF6''), (''highlight'', ''#FFDEE2'')]),
     (initializing,
        [(''primary'', ''#D3E4FD''), (''secondary'', ''#6E59A5''), (''tertiary'', ''#E5DEFF''),
         (''accent'', ''#9b87f5''), (''highlight'', ''#FFDEE2'')]),
     (listening,
        [(''primary'', ''#D3E4FD''), (''secondary'', ''#D946EF''), (''tertiary'', ''#E5DEFF''),
         (''accent'', ''#8B5CF6''), (''highlight'', ''#FFDEE2'')]),
     (thinking,
        [(''primary'', ''#D3E4FD''), (''secondary'', ''#0EA5E9''), (''tertiary'', ''#D6BCFA''),
         (''accent'', ''#33C3F0''), (''highlight'', ''#FFDEE2'')]),
     (speaking,
        [(''primary'', ''#D3E4FD''), (''secondary'', ''#1EAEDB''), (''tertiary'', ''#D6BCFA''),
         (''accent'', ''#0FA0CE''), (''highlight'', ''#FFDEE2'')])]"

text \<open>\<open>statePalettes[state]\<close>: \<open>None\<close> stands for \<open>undefined\<close>.\<close>

definition paletteOf :: "AgentState \<Rightarrow> ColorPalette option" where
  "paletteOf st = map_of statePalettes st"

definition paletteKeys :: "string list" where
  "paletteKeys = [''primary'', ''secondary'', ''tertiary'', ''accent'', ''highlight'']"

text \<open>A defined colour of the table: a \<open>#\<close> followed by six characters.\<close>

definition definedColor :: "string option \<Rightarrow> bool" where
  "definedColor c = (case c of None \<Rightarrow> False | Some v \<Rightarrow> length v = 7 \<and> hd v = CHR ''#'')"

record AudioBands =
  low :: real
  mid :: real
  high :: real
  transient :: real

text \<open>
  \<open>simulateAudioBands\<close>; \<open>rnd\<close> is the value of the one \<open>Math.random()\<close> call the taken
  branch makes.
\<close>

definition simulateAudioBands :: "real \<Rightarrow> AgentState \<Rightarrow> real \<Rightarrow> real \<Rightarrow> AudioBands" where
  "simulateAudioBands audioLevel st time rnd =
    (let absLevel = \<bar>audioLevel\<bar> in
     if st = speaking then
       \<lparr>low = absLevel * (0.7 + 0.3 * sin (time * 0.002)),
        mid = absLevel * (0.5 + 0.5 * sin (time * 0.005)),
        high = absLevel * (0.8 + 0.2 * sin (time * 0.01)),
        transient = absLevel * (if rnd > 0.8 then 1.5 else 0.1)\<rparr>
     else if st = listening then
       \<lparr>low = absLevel * (0.4 + 0.3 * sin (time * 0.002)),
        mid = absLevel * (0.7 + 0.3 * sin (time * 0.005)),
        high = absLevel * (0.5 + 0.2 * sin (time * 0.01)),
        transient = absLevel * (if rnd > 0.7 then 1.2 else 0.1)\<rparr>
     else
       \<lparr>low = absLevel * (0.3 + 0.2 * sin (time * 0.001)),
        mid = absLevel * (0.3 + 0.2 * sin (time * 0.003)),
        high = absLevel * (0.3 + 0.2 * sin (time * 0.005)),
        transient = absLevel * (if rnd > 0.9 then 0.8 else 0.1)\<rparr>)"

section \<open>Sphere configuration and position update\<close>

text \<open>
  What a step of the model reports when the JavaScript leaves the well-defined values:
  \<open>NotANumber\<close> when a \<open>0 / 0\<close> would put \<open>NaN\<close> into the configuration, \<open>TypeError\<close>
  when a property of \<open>undefined\<close> would be read.
\<close>

datatype error = NotANumber | TypeError

text \<open>
  \<open>SphereConfig\<close>. The fields \<open>x\<close> and \<open>y\<close> of the source are \<open>cfg_x\<close> and \<open>cfg_y\<close> here;
  \<open>arcCount\<close> only ever holds a loop bound and is a natural number.
\<close>

record SphereConfig =
  baseRadius :: real
  maxExtraRadius :: real
  arcCount :: nat
  arcWidth :: real
  rotation :: real
  distortion :: real
  velocityX :: real
  velocityY :: real
  cfg_x :: real
  cfg_y :: real

text \<open>The initial value of \<open>sphereConfigRef\<close>.\<close>

definition initialConfig :: "real \<Rightarrow> SphereConfig" where
  "initialConfig canvasSize =
    \<lparr>baseRadius = canvasSize * 0.35, maxExtraRadius = canvasSize * 0.1, arcCount = 3,
     arcWidth = canvasSize * 0.03, rotation = 0, distortion = 0,
     velocityX = 0, velocityY = 0, cfg_x = 0, cfg_y = 0\<rparr>"

text \<open>
  \<open>updateSpherePosition\<close> (\<open>components/CanvasComp.tsx\<close>, lines 367 to 411), block by
  block in the order of the source; the configuration it mutates in place is passed in and
  returned. \<open>rndX\<close> and \<open>rndY\<close> are the two \<open>Math.random()\<close> draws. The local
  \<open>movementFactor\<close> (line 375) is used by two blocks.
\<close>

definition movementFactor :: "AudioBands \<Rightarrow> real" where
  "movementFactor bands = transient bands * 2 + mid bands * 1.5"

text \<open>Lines 378 to 383: random acceleration added to the velocity.\<close>

definition addAcceleration :: "SphereConfig \<Rightarrow> AudioBands \<Rightarrow> real \<Rightarrow> real \<Rightarrow> SphereConfig" where
  "addAcceleration config bands rndX rndY =
    (let ax = (rndX - 0.5) * 0.01 * movementFactor bands;
         ay = (rndY - 0.5) * 0.01 * movementFactor bands
     in config\<lparr>velocityX := velocityX config + ax, velocityY := velocityY config + ay\<rparr>)"

text \<open>Lines 386 and 387: damping.\<close>

definition dampVelocity :: "SphereConfig \<Rightarrow> SphereConfig" where
  "dampVelocity config =
     config\<lparr>velocityX := velocityX config * 0.95, velocityY := velocityY config * 0.95\<rparr>"

text \<open>
  Lines 390 to 396: velocity limit. The rescaling divides by \<open>velocityMagnitude\<close>; when that is 0 (which needs
  a negative \<open>maxVelocity\<close>) JavaScript computes \<open>0 / 0 = NaN\<close>, reported as \<open>NotANumber\<close>.
\<close>

definition limitVelocity :: "SphereConfig \<Rightarrow> AudioBands \<Rightarrow> error + SphereConfig" where
  "limitVelocity config bands =
    (let maxVelocity = 0.5 + movementFactor bands * 0.5;
         velocityMagnitude =
           sqrt (velocityX config * velocityX config + velocityY config * velocityY config)
     in if velocityMagnitude > maxVelocity then
          if velocityMagnitude = 0 then Inl NotANumber
          else Inr (config\<lparr>velocityX := velocityX config / velocityMagnitude * maxVelocity,
                           velocityY := velocityY config / velocityMagnitude * maxVelocity\<rparr>)
        else Inr config)"

text \<open>Lines 399 and 400: position integration.\<close>

definition movePosition :: "SphereConfig \<Rightarrow> real \<Rightarrow> SphereConfig" where
  "movePosition config deltaTime =
     config\<lparr>cfg_x := cfg_x config + velocityX config * deltaTime * 0.1,
            cfg_y := cfg_y config + velocityY config * deltaTime * 0.1\<rparr>"

text \<open>
  Lines 403 to 405: displacement limit; \<open>canvasSize\<close> is the component's \<open>size\<close> property.
\<close>

definition clampPosition :: "real \<Rightarrow> SphereConfig \<Rightarrow> SphereConfig" where
  "clampPosition canvasSize config =
    (let maxDisplacement = canvasSize * 0.05
     in config\<lparr>cfg_x := max (min (cfg_x config) maxDisplacement) (- maxDisplacement),
               cfg_y := max (min (cfg_y config) maxDisplacement) (- maxDisplacement)\<rparr>)"

text \<open>The whole function: the updated configuration and the returned draw position.\<close>

definition updateSpherePosition ::
  "real \<Rightarrow> SphereConfig \<Rightarrow> real \<Rightarrow> real \<Rightarrow> AudioBands \<Rightarrow> real \<Rightarrow> real \<Rightarrow> real
     \<Rightarrow> error + (SphereConfig \<times> (real \<times> real))" where
  "updateSpherePosition canvasSize config centerX centerY bands deltaTime rndX rndY =
    (case limitVelocity (dampVelocity (addAcceleration config bands rndX rndY)) bands of
       Inl e \<Rightarrow> Inl e
     | Inr config \<Rightarrow>
         let config = clampPosition canvasSize (movePosition config deltaTime)
         in Inr (config, (centerX + cfg_x config, centerY + cfg_y config)))"

text \<open>
  One tick as \<open>animate\<close> performs it on the position: the bands are synthesised from the
  audio level, the agent state and the time, then \<open>updateSpherePosition\<close> is called.
  A \<open>Tick\<close> holds the inputs of one such call, and \<open>positionTicks\<close> runs a sequence of them.
\<close>

record Tick =
  tickAudioLevel :: real
  tickState :: AgentState
  tickTime :: real
  tickRnd :: real
  tickCenterX :: real
  tickCenterY :: real
  tickDeltaTime :: real
  tickRndX :: real
  tickRndY :: real

definition positionTick :: "real \<Rightarrow> SphereConfig \<Rightarrow> Tick \<Rightarrow> error + SphereConfig" where
  "positionTick canvasSize config t =
    (let bands = simulateAudioBands (tickAudioLevel t) (tickState t) (tickTime t) (tickRnd t)
     in case updateSpherePosition canvasSize config (tickCenterX t) (tickCenterY t) bands
               (tickDeltaTime t) (tickRndX t) (tickRndY t) of
          Inl e \<Rightarrow> Inl e
        | Inr (config', position) \<Rightarrow> Inr config')"

fun positionTicks :: "real \<Rightarrow> SphereConfig \<Rightarrow> Tick list \<Rightarrow> error + SphereConfig" where
  "positionTicks canvasSize config [] = Inr config"
| "positionTicks canvasSize config (t # ts) =
    (case positionTick canvasSize config t of
       Inl e \<Rightarrow> Inl e
     | Inr config' \<Rightarrow> positionTicks canvasSize config' ts)"

text \<open>The position offset lies within 5 percent of the canvas size on both axes.\<close>

definition withinDisplacement :: "real \<Rightarrow> SphereConfig \<Rightarrow> bool" where
  "withinDisplacement canvasSize config =
    (- (canvasSize * 0.05) \<le> cfg_x config \<and> cfg_x config \<le> canvasSize * 0.05 \<and>
     - (canvasSize * 0.05) \<le> cfg_y config \<and> cfg_y config \<le> canvasSize * 0.05)"

text \<open>Two configurations agree on every field that is neither velocity nor offset.\<close>

definition sameShape :: "SphereConfig \<Rightarrow> SphereConfig \<Rightarrow> bool" where
  "sameShape c c' =
    (baseRadius c' = baseRadius c \<and> maxExtraRadius c' = maxExtraRadius c \<and>
     arcCount c' = arcCount c \<and> arcWidth c' = arcWidth c \<and>
     rotation c' = rotation c \<and> distortion c' = distortion c)"

section \<open>The velocity blocks in double arithmetic\<close>

text \<open>
  A JavaScript number is an IEEE 754 double, and each arithmetic operation returns the
  double nearest to the exact result. The velocity limit is sensitive to this, so the
  blocks of \<open>updateSpherePosition\<close> are given a second time with the rounding written out.
  \<open>double\<close> rounds a real to 53 significant bits, to nearest with ties to even; the
  exponent range is left unbounded, so the model agrees with the machine arithmetic as long
  as no result overflows or falls below the normal range. \<open>Math.sqrt\<close> is taken as
  correctly rounded, and a decimal literal denotes the double nearest to it.
\<close>

definition round_even :: "real \<Rightarrow> int" where
  "round_even q =
    (let f = \<lfloor>q\<rfloor>; d = q - of_int f
     in if d < 1 / 2 then f
        else if d > 1 / 2 then f + 1
        else if even f then f else f + 1)"

definition double :: "real \<Rightarrow> real" where
  "double v =
    (if v = 0 then 0
     else let e = \<lfloor>log 2 \<bar>v\<bar>\<rfloor>;
              ulp = 2 powr (of_int e - 52)
          in of_int (round_even (v / ulp)) * ulp)"

text \<open>The relative error of one rounding is at most \<open>1 / 2 ^ 53\<close>.\<close>

definition unit_roundoff :: real where
  "unit_roundoff = 1 / 2 ^ 53"

text \<open>
  Lines 375 to 411 of \<open>components/CanvasComp.tsx\<close>, operation by operation; operator
  precedence is that of the source (\<open>a * b * c\<close> is \<open>(a * b) * c\<close>).
\<close>

definition movementFactor_d :: "AudioBands \<Rightarrow> real" where
  "movementFactor_d bands = double (double (transient bands * 2) + double (mid bands * 1.5))"

definition addAcceleration_d :: "SphereConfig \<Rightarrow> AudioBands \<Rightarrow> real \<Rightarrow> real \<Rightarrow> SphereConfig" where
  "addAcceleration_d config bands rndX rndY =
    (let ax = double (double (double (rndX - 0.5) * double 0.01) * movementFactor_d bands);
         ay = double (double (double (rndY - 0.5) * double 0.01) * movementFactor_d bands)
     in config\<lparr>velocityX := double (velocityX config + ax),
               velocityY := double (velocityY config + ay)\<rparr>)"

definition dampVelocity_d :: "SphereConfig \<Rightarrow> SphereConfig" where
  "dampVelocity_d config =
     config\<lparr>velocityX := double (velocityX config * double 0.95),
            velocityY := double (velocityY config * double 0.95)\<rparr>"

definition limitVelocity_d :: "SphereConfig \<Rightarrow> AudioBands \<Rightarrow> error + SphereConfig" where
  "limitVelocity_d config bands =
    (let maxVelocity = double (0.5 + double (movementFactor_d bands * 0.5));
         velocityMagnitude =
           double (sqrt (double (double (velocityX config * velocityX config)
                                 + double (velocityY config * velocityY config))))
     in if velocityMagnitude > maxVelocity then
          if velocityMagnitude = 0 then Inl NotANumber
          else Inr (config\<lparr>velocityX :=
                             double (double (velocityX config / velocityMagnitude) * maxVelocity),
                           velocityY :=
                             double (double (velocityY config / velocityMagnitude) * maxVelocity)\<rparr>)
        else Inr config)"

definition movePosition_d :: "SphereConfig \<Rightarrow> real \<Rightarrow> SphereConfig" where
  "movePosition_d config deltaTime =
     config\<lparr>cfg_x := double (cfg_x config
                         + double (double (velocityX config * deltaTime) * double 0.1)),
            cfg_y := double (cfg_y config
                         + double (double (velocityY config * deltaTime) * double 0.1))\<rparr>"

definition clampPosition_d :: "real \<Rightarrow> SphereConfig \<Rightarrow> SphereConfig" where
  "clampPosition_d canvasSize config =
    (let maxDisplacement = double (canvasSize * double 0.05)
     in config\<lparr>cfg_x := max (min (cfg_x config) maxDisplacement) (- maxDisplacement),
               cfg_y := max (min (cfg_y config) maxDisplacement) (- maxDisplacement)\<rparr>)"

definition updateSpherePosition_d ::
  "real \<Rightarrow> SphereConfig \<Rightarrow> real \<Rightarrow> real \<Rightarrow> AudioBands \<Rightarrow> real \<Rightarrow> real \<Rightarrow> real
     \<Rightarrow> error + (SphereConfig \<times> (real \<times> real))" where
  "updateSpherePosition_d canvasSize config centerX centerY bands deltaTime rndX rndY =
    (case limitVelocity_d (dampVelocity_d (addAcceleration_d config bands rndX rndY)) bands of
       Inl e \<Rightarrow> Inl e
     | Inr config \<Rightarrow>
         let config = clampPosition_d canvasSize (movePosition_d config deltaTime)
         in Inr (config, (double (centerX + cfg_x config), double (centerY + cfg_y config))))"

text \<open>The velocity stored by a call, if it returns.\<close>

definition resultVelocity :: "error + (SphereConfig \<times> (real \<times> real)) \<Rightarrow> (real \<times> real) option" where
  "resultVelocity r = (case r of Inl e \<Rightarrow> None | Inr (config, position) \<Rightarrow>
                         Some (velocityX config, velocityY config))"

text \<open>
  Concrete inputs: a configuration moving at velocity \<open>(7, 7)\<close>, the bands at audio level 0,
  and bands with a negative transient component.
\<close>

definition fastConfig :: SphereConfig where
  "fastConfig = (initialConfig 300)\<lparr>velocityX := 7, velocityY := 7\<rparr>"

definition silentBands :: AudioBands where
  "silentBands = \<lparr>low = 0, mid = 0, high = 0, transient = 0\<rparr>"

definition negativeBands :: AudioBands where
  "negativeBands = \<lparr>low = 0, mid = 0, high = 0, transient = - 1\<rparr>"

section \<open>Orbital arcs and the colour cycle\<close>

text \<open>
  The remainder operator \<open>%\<close> on integral values: the result has the sign of the dividend,
  and a zero divisor gives \<open>NaN\<close> (\<open>None\<close>).
\<close>

definition js_rem :: "int \<Rightarrow> int \<Rightarrow> int option" where
  "js_rem a b = (if b = 0 then None else Some (sgn a * (\<bar>a\<bar> mod \<bar>b\<bar>)))"

text \<open>
  The colour of arc \<open>i\<close> in \<open>drawOrbitalArcs\<close>: \<open>colorCycle\<close> is \<open>colorCycleRef.current\<close>.
  An index outside the key array, and a \<open>NaN\<close> index, read \<open>undefined\<close> (\<open>None\<close>).
\<close>

definition colorIndex :: "ColorPalette \<Rightarrow> real \<Rightarrow> nat \<Rightarrow> int option" where
  "colorIndex colors colorCycle i =
     js_rem (int i + \<lfloor>colorCycle\<rfloor>) (int (length (object_keys colors)))"

definition arcColor :: "ColorPalette \<Rightarrow> real \<Rightarrow> nat \<Rightarrow> string option" where
  "arcColor colors colorCycle i =
    (case colorIndex colors colorCycle i of
       None \<Rightarrow> None
     | Some k \<Rightarrow>
         if 0 \<le> k \<and> nat k < length (object_keys colors)
         then map_of colors (object_keys colors ! nat k)
         else None)"

text \<open>What one \<open>drawArc\<close> call strokes on the canvas.\<close>

record ArcStroke =
  strokeX :: real
  strokeY :: real
  strokeRadius :: real
  strokeStart :: real
  strokeEnd :: real
  strokeWidth :: real
  strokeStyle :: "string option"
  strokeBlur :: real

definition drawArc ::
  "real \<Rightarrow> real \<Rightarrow> real \<Rightarrow> real \<Rightarrow> real \<Rightarrow> real \<Rightarrow> string option \<Rightarrow> bool \<Rightarrow> ArcStroke" where
  "drawArc ax ay radius startAngle endAngle width color glow =
    \<lparr>strokeX = ax, strokeY = ay, strokeRadius = radius, strokeStart = startAngle,
     strokeEnd = endAngle, strokeWidth = width, strokeStyle = color,
     strokeBlur = (if glow then width * 1.5 else 0)\<rparr>"

text \<open>The two arcs \<open>drawOrbitalArcs\<close> draws for index \<open>i\<close>, and the loop over the indices.\<close>

definition orbitalArcPair ::
  "real \<Rightarrow> real \<Rightarrow> SphereConfig \<Rightarrow> ColorPalette \<Rightarrow> AudioBands \<Rightarrow> real \<Rightarrow> real \<Rightarrow> nat
     \<Rightarrow> ArcStroke list" where
  "orbitalArcPair centerX centerY config colors bands time colorCycle i =
    (let distortionFactor = 1 + mid bands * 0.25;
         baseRotation = rotation config + (real i * pi * 2 / real (arcCount config));
         orbitalRadius =
           baseRadius config * (1.2 + real i * 0.15 + low bands * 0.1) * distortionFactor;
         arcWidth' = arcWidth config * (0.6 + real i * 0.2) * (1 + high bands * 0.4);
         segmentLength = pi * (0.5 + transient bands * 0.3 + sin (time * 0.001 + real i) * 0.2);
         startAngle = baseRotation + sin (time * 0.0015) * 0.2;
         endAngle = startAngle + segmentLength;
         color = arcColor colors colorCycle i;
         oppositeStartAngle = startAngle + pi;
         oppositeEndAngle = oppositeStartAngle + segmentLength * 0.8
     in [drawArc centerX centerY orbitalRadius startAngle endAngle arcWidth' color True,
         drawArc centerX centerY (orbitalRadius * 0.95) oppositeStartAngle oppositeEndAngle
           (arcWidth' * 0.8) color True])"

definition drawOrbitalArcs ::
  "real \<Rightarrow> real \<Rightarrow> SphereConfig \<Rightarrow> ColorPalette \<Rightarrow> AudioBands \<Rightarrow> real \<Rightarrow> real
     \<Rightarrow> ArcStroke list" where
  "drawOrbitalArcs centerX centerY config colors bands time colorCycle =
     concat (map (orbitalArcPair centerX centerY config colors bands time colorCycle)
               [0..<arcCount config])"

text \<open>
  The disc \<open>drawMainSphere\<close> fills and the rim it strokes. Of the colours only the rim's
  \<open>strokeStyle\<close> is kept; the colour stops of the gradient are not part of the model.
\<close>

record SphereDisc =
  discX :: real
  discY :: real
  discRadius :: real
  gradientRadius :: real
  rimAlpha :: real
  rimWidth :: real
  rimStyle :: "string option"

definition drawMainSphere ::
  "real \<Rightarrow> real \<Rightarrow> SphereConfig \<Rightarrow> ColorPalette \<Rightarrow> AudioBands \<Rightarrow> real \<Rightarrow> SphereDisc" where
  "drawMainSphere centerX centerY config colors bands time =
    (let pulseFactor = sin (time * 0.002) * 0.15 + 0.85;
         radius = baseRadius config * (1 + low bands * 0.4) * pulseFactor
     in \<lparr>discX = centerX, discY = centerY, discRadius = radius,
         gradientRadius = radius * 1.2 * (1 + low bands * 0.3),
         rimAlpha = 0.3 + high bands * 0.4, rimWidth = 1 + transient bands * 3,
         rimStyle = map_of colors ''highlight''\<rparr>)"

section \<open>The animation callback\<close>

record CanvasProps =
  propSize :: real
  propState :: AgentState
  propAudioLevel :: real

text \<open>
  What the browser supplies to one invocation of \<open>animate\<close>: the timestamp, whether the
  canvas yields a 2D context, the canvas dimensions and the three random draws of a
  drawn frame.
\<close>

record FrameEnv =
  envTimestamp :: real
  envHasContext :: bool
  envWidth :: real
  envHeight :: real
  envRndBand :: real
  envRndX :: real
  envRndY :: real

record DrawnFrame =
  frameTimestamp :: real
  frameSphere :: SphereDisc
  frameArcs :: "ArcStroke list"

text \<open>
  The refs and the closure variable \<open>lastFrameTime\<close> of the component, with the
  browser-side state they act on: \<open>nextHandle\<close> is the counter from which
  \<open>requestAnimationFrame\<close> takes its handles (they are positive), \<open>cancelled\<close> lists the
  handles passed to \<open>cancelAnimationFrame\<close>, and \<open>frames\<close> lists the frames drawn on the
  canvas, oldest first.
\<close>

record AnimState =
  animationRef :: nat
  lastFrameTime :: real
  timeRef :: real
  colorCycleRef :: real
  audioBandsRef :: AudioBands
  sphereConfigRef :: SphereConfig
  nextHandle :: nat
  cancelled :: "nat list"
  frames :: "DrawnFrame list"

definition frameInterval :: real where
  "frameInterval = 1000 / 30"

text \<open>The component as mounted: \<open>now\<close> is \<open>performance.now()\<close>.\<close>

definition initialState :: "real \<Rightarrow> real \<Rightarrow> nat \<Rightarrow> AnimState" where
  "initialState canvasSize now handle =
    \<lparr>animationRef = 0, lastFrameTime = now, timeRef = 0, colorCycleRef = 0,
     audioBandsRef = \<lparr>low = 0, mid = 0, high = 0, transient = 0\<rparr>,
     sphereConfigRef = initialConfig canvasSize,
     nextHandle = handle, cancelled = [], frames = []\<rparr>"

text \<open>\<open>animationRef.current = requestAnimationFrame(animate)\<close>.\<close>

definition requestFrame :: "AnimState \<Rightarrow> AnimState" where
  "requestFrame s = s\<lparr>animationRef := Suc (nextHandle s), nextHandle := Suc (nextHandle s)\<rparr>"

text \<open>The cleanup function returned by the animation effect.\<close>

definition teardown :: "AnimState \<Rightarrow> AnimState" where
  "teardown s =
    (if animationRef s \<noteq> 0
     then s\<lparr>cancelled := cancelled s @ [animationRef s], animationRef := 0\<rparr>
     else s)"

text \<open>
  The body of the throttling branch of \<open>animate\<close> (lines 424 to 481), entered with a 2D
  context: accumulators, bands, rotation and distortion, position, drawing,
  \<open>lastFrameTime\<close>.
\<close>

definition drawFrame :: "CanvasProps \<Rightarrow> FrameEnv \<Rightarrow> AnimState \<Rightarrow> error + AnimState" where
  "drawFrame props env s =
    (let deltaTime = envTimestamp env - lastFrameTime s;
         time = timeRef s + deltaTime;
         colorCycle = colorCycleRef s + deltaTime * 0.0001;
         bands = simulateAudioBands (propAudioLevel props) (propState props) time (envRndBand env);
         centerX = envWidth env / 2;
         centerY = envHeight env / 2;
         config = (sphereConfigRef s)
                    \<lparr>rotation := rotation (sphereConfigRef s) + 0.005 * (1 + mid bands * 0.7),
                     distortion := high bands * 0.3\<rparr>
     in case updateSpherePosition (propSize props) config centerX centerY bands deltaTime
               (envRndX env) (envRndY env) of
          Inl e \<Rightarrow> Inl e
        | Inr (config', position) \<Rightarrow>
            (case paletteOf (propState props) of
               None \<Rightarrow> Inl TypeError
             | Some colorPalette \<Rightarrow>
                 Inr (s\<lparr>timeRef := time, colorCycleRef := colorCycle, audioBandsRef := bands,
                         sphereConfigRef := config',
                         frames := frames s @
                           [\<lparr>frameTimestamp = envTimestamp env,
                             frameSphere =
                               drawMainSphere (fst position) (snd position) config' colorPalette
                                 bands time,
                             frameArcs =
                               drawOrbitalArcs (fst position) (snd position) config'
                                 colorPalette bands time colorCycle\<rparr>],
                         lastFrameTime := envTimestamp env\<rparr>)))"

text \<open>
  \<open>animate\<close> (lines 414 to 486): nothing happens once the handle is zeroed; a callback that
  comes too early only requests the next frame; a missing 2D context returns without
  requesting one.
\<close>

definition animate :: "CanvasProps \<Rightarrow> FrameEnv \<Rightarrow> AnimState \<Rightarrow> error + AnimState" where
  "animate props env s =
    (if animationRef s = 0 then Inr s
     else if envTimestamp env - lastFrameTime s \<ge> frameInterval then
       (if \<not> envHasContext env then Inr s
        else case drawFrame props env s of
               Inl e \<Rightarrow> Inl e
             | Inr s' \<Rightarrow> Inr (requestFrame s'))
     else Inr (requestFrame s))"

text \<open>The callback invoked once per entry of a list of browser frames.\<close>

fun animateAll :: "CanvasProps \<Rightarrow> FrameEnv list \<Rightarrow> AnimState \<Rightarrow> error + AnimState" where
  "animateAll props [] s = Inr s"
| "animateAll props (env # envs) s =
    (case animate props env s of
       Inl e \<Rightarrow> Inl e
     | Inr s' \<Rightarrow> animateAll props envs s')"

text \<open>Any two frames of a list of drawn frames are at least \<open>frameInterval\<close> apart.\<close>

definition spacedFrames :: "DrawnFrame list \<Rightarrow> bool" where
  "spacedFrames fs = sorted_wrt (\<lambda>a b. frameInterval \<le> b - a) (map frameTimestamp fs)"

text \<open>
  The state of a run that started at time \<open>now\<close>: drawn frames are spaced, none is later
  than \<open>lastFrameTime\<close>, and the two accumulators hold exactly the time covered by the
  drawn frames.
\<close>

definition throttled :: "real \<Rightarrow> AnimState \<Rightarrow> bool" where
  "throttled now s =
    (spacedFrames (frames s) \<and>
     list_all (\<lambda>f. frameTimestamp f \<le> lastFrameTime s) (frames s) \<and>
     timeRef s = lastFrameTime s - now \<and>
     colorCycleRef s = (lastFrameTime s - now) * 0.0001)"

text \<open>An example run: the properties of a mounted component and a browser frame at time \<open>t\<close>.\<close>

definition exampleProps :: CanvasProps where
  "exampleProps = \<lparr>propSize = 300, propState = speaking, propAudioLevel = 1\<rparr>"

definition exampleEnv :: "real \<Rightarrow> FrameEnv" where
  "exampleEnv t =
    \<lparr>envTimestamp = t, envHasContext = True, envWidth = 300, envHeight = 300,
     envRndBand = 0.9, envRndX = 0.2, envRndY = 0.7\<rparr>"

section \<open>Wave arcs\<close>

text \<open>The configuration of the wave-arc variant of the component.\<close>

record WaveSphereConfig = SphereConfig +
  blurAmount :: real
  waveFactor :: real
  wavePeriod :: real
  waveSpeed :: real

text \<open>
  The loop \<open>for (let i = 0; i <= steps; i++) points.push(body i)\<close> of
  \<open>calculateWavePoints\<close>.
\<close>

function waveLoop ::
  "(nat \<Rightarrow> real \<times> real) \<Rightarrow> nat \<Rightarrow> nat \<Rightarrow> (real \<times> real) list \<Rightarrow> (real \<times> real) list" where
  "waveLoop body steps i points =
    (if i \<le> steps then waveLoop body steps (Suc i) (points @ [body i]) else points)"
  by pat_completeness auto
termination
  by (relation "measure (\<lambda>(body, steps, i, points). Suc steps - i)") auto

declare waveLoop.simps [simp del]

definition calculateWavePoints ::
  "real \<Rightarrow> real \<Rightarrow> real \<Rightarrow> real \<Rightarrow> real \<Rightarrow> WaveSphereConfig \<Rightarrow> real \<Rightarrow> AudioBands
     \<Rightarrow> (real \<times> real) list" where
  "calculateWavePoints centerX centerY radius startAngle endAngle config time bands =
    (let steps = 30;
         waveFactor' = waveFactor config * (1 + high bands * 0.5);
         wavePeriod' = wavePeriod config * (1 - mid bands * 0.3);
         waveSpeed' = waveSpeed config * (1 + mid bands * 0.5)
     in waveLoop
          (\<lambda>i. let angle = startAngle + ((endAngle - startAngle) * real i / real steps);
                   waveOffset = sin (angle * wavePeriod' + time * waveSpeed') * waveFactor'
                                  * radius * (1 + high bands * 0.3);
                   waveRadius = radius + waveOffset;
                   px = centerX + cos angle * waveRadius;
                   py = centerY + sin angle * waveRadius
               in (px, py))
          steps 0 [])"

text \<open>The initial configuration of the wave-arc variant.\<close>

definition initialWaveConfig :: "real \<Rightarrow> WaveSphereConfig" where
  "initialWaveConfig canvasSize =
    \<lparr>baseRadius = canvasSize * 0.35, maxExtraRadius = canvasSize * 0.1, arcCount = 4,
     arcWidth = canvasSize * 0.03, rotation = 0, distortion = 0,
     velocityX = 0, velocityY = 0, cfg_x = 0, cfg_y = 0,
     blurAmount = 5, waveFactor = 0.2, wavePeriod = 6, waveSpeed = 0.001\<rparr>"

section \<open>Band synthesis\<close>

lemma sin_affine_nonneg:
  fixes a b t :: real
  assumes "0 \<le> b" and "b \<le> a"
  shows "0 \<le> a + b * sin t"
proof -
  have "- 1 \<le> sin t" by (rule sin_ge_minus_one)
  then have "b * (- 1) \<le> b * sin t"
    using assms(1) by (rule mult_left_mono)
  then show ?thesis using assms(2) by linarith
qed

lemma band_term_nonneg:
  fixes a b t l :: real
  assumes "0 \<le> b" and "b \<le> a"
  shows "0 \<le> \<bar>l\<bar> * (a + b * sin t)"
  using sin_affine_nonneg [OF assms] by (simp add: mult_nonneg_nonneg)

lemma simulateAudioBands_transient_nonneg:
  "0 \<le> transient (simulateAudioBands audioLevel st time rnd)"
  by (simp add: simulateAudioBands_def Let_def)

lemma simulateAudioBands_low_nonneg:
  "0 \<le> low (simulateAudioBands audioLevel st time rnd)"
  unfolding simulateAudioBands_def Let_def
  by (simp only: AudioBands.select_convs split: if_split)
     (intro conjI impI band_term_nonneg; simp)

lemma simulateAudioBands_mid_nonneg:
  "0 \<le> mid (simulateAudioBands audioLevel st time rnd)"
  unfolding simulateAudioBands_def Let_def
  by (simp only: AudioBands.select_convs split: if_split)
     (intro conjI impI band_term_nonneg; simp)

lemma simulateAudioBands_high_nonneg:
  "0 \<le> high (simulateAudioBands audioLevel st time rnd)"
  unfolding simulateAudioBands_def Let_def
  by (simp only: AudioBands.select_convs split: if_split)
     (intro conjI impI band_term_nonneg; simp)

lemma simulateAudioBands_silent:
  "simulateAudioBands 0 st time rnd = \<lparr>low = 0, mid = 0, high = 0, transient = 0\<rparr>"
  by (simp add: simulateAudioBands_def Let_def)

text \<open>
  C3: whatever the agent state, the time and the random draw, the low, mid and high bands
  returned by \<open>simulateAudioBands\<close> are non-negative, and at audio level 0 all four bands
  are 0.
\<close>

theorem simulateAudioBands_nonneg_and_zero:
  "0 \<le> low (simulateAudioBands audioLevel st time rnd) \<and>
   0 \<le> mid (simulateAudioBands audioLevel st time rnd) \<and>
   0 \<le> high (simulateAudioBands audioLevel st time rnd) \<and>
   simulateAudioBands 0 st time rnd = \<lparr>low = 0, mid = 0, high = 0, transient = 0\<rparr>"
  by (intro conjI simulateAudioBands_low_nonneg simulateAudioBands_mid_nonneg
      simulateAudioBands_high_nonneg simulateAudioBands_silent)

text \<open>
  C4: for state speaking, audio level 1.0 and time 0 the deterministic bands are exactly
  low = 0.7, mid = 0.5 and high = 0.8, and the transient band lies between 0.1 and 1.5
  whatever the random draw.
\<close>

theorem simulateAudioBands_speaking_scenario:
  "low (simulateAudioBands 1.0 speaking 0 rnd) = 0.7 \<and>
   mid (simulateAudioBands 1.0 speaking 0 rnd) = 0.5 \<and>
   high (simulateAudioBands 1.0 speaking 0 rnd) = 0.8 \<and>
   0.1 \<le> transient (simulateAudioBands 1.0 speaking 0 rnd) \<and>
   transient (simulateAudioBands 1.0 speaking 0 rnd) \<le> 1.5"
  by (simp add: simulateAudioBands_def Let_def)

section \<open>Palette table\<close>

lemma paletteOf_defined: "\<exists>colors. paletteOf st = Some colors"
  by (cases st) (simp_all add: paletteOf_def statePalettes_def)

lemma paletteOf_keys: "paletteOf st = Some colors \<Longrightarrow> object_keys colors = paletteKeys"
  by (cases st) (auto simp add: paletteOf_def statePalettes_def object_keys_def paletteKeys_def)

text \<open>
  C5: every agent state has an entry in the palette table, and the entry has exactly the
  five keys primary, secondary, tertiary, accent, highlight, each bound to a defined colour.
\<close>

theorem statePalettes_total:
  "\<exists>colors. paletteOf st = Some colors \<and>
     object_keys colors = [''primary'', ''secondary'', ''tertiary'', ''accent'', ''highlight''] \<and>
     length colors = 5 \<and>
     definedColor (map_of colors ''primary'') \<and>
     definedColor (map_of colors ''secondary'') \<and>
     definedColor (map_of colors ''tertiary'') \<and>
     definedColor (map_of colors ''accent'') \<and>
     definedColor (map_of colors ''highlight'')"
  by (cases st) (simp_all add: paletteOf_def statePalettes_def object_keys_def definedColor_def)

section \<open>Position update\<close>

subsection \<open>Fields left alone\<close>

lemma sameShape_refl: "sameShape c c"
  by (simp add: sameShape_def)

lemma sameShape_trans: "sameShape a b \<Longrightarrow> sameShape b c \<Longrightarrow> sameShape a c"
  by (simp add: sameShape_def)

lemma sameShape_addAcceleration: "sameShape c (addAcceleration c bands rndX rndY)"
  by (simp add: sameShape_def addAcceleration_def Let_def)

lemma sameShape_dampVelocity: "sameShape c (dampVelocity c)"
  by (simp add: sameShape_def dampVelocity_def)

lemma sameShape_limitVelocity: "limitVelocity c bands = Inr c' \<Longrightarrow> sameShape c c'"
  by (auto simp add: sameShape_def limitVelocity_def Let_def split: if_splits)

lemma sameShape_movePosition: "sameShape c (movePosition c deltaTime)"
  by (simp add: sameShape_def movePosition_def)

lemma sameShape_clampPosition: "sameShape c (clampPosition canvasSize c)"
  by (simp add: sameShape_def clampPosition_def Let_def)

lemma limitVelocity_error:
  "limitVelocity c bands = Inl e \<longleftrightarrow>
     e = NotANumber \<and> velocityX c = 0 \<and> velocityY c = 0 \<and> 0.5 + movementFactor bands * 0.5 < 0"
proof -
  have z: "sqrt (velocityX c * velocityX c + velocityY c * velocityY c) = 0
             \<longleftrightarrow> velocityX c = 0 \<and> velocityY c = 0"
    by (simp add: sum_squares_eq_zero_iff)
  show ?thesis
    unfolding limitVelocity_def Let_def using z by (auto split: if_splits)
qed

lemma updateSpherePosition_error:
  "updateSpherePosition canvasSize c centerX centerY bands deltaTime rndX rndY = Inl e \<longleftrightarrow>
     limitVelocity (dampVelocity (addAcceleration c bands rndX rndY)) bands = Inl e"
  by (simp add: updateSpherePosition_def Let_def split: sum.splits)

lemma updateSpherePosition_result:
  assumes "updateSpherePosition canvasSize c centerX centerY bands deltaTime rndX rndY = Inr (c', p)"
  obtains v where "limitVelocity (dampVelocity (addAcceleration c bands rndX rndY)) bands = Inr v"
    and "c' = clampPosition canvasSize (movePosition v deltaTime)"
    and "p = (centerX + cfg_x c', centerY + cfg_y c')"
  using assms by (auto simp add: updateSpherePosition_def Let_def split: sum.splits)

lemma updateSpherePosition_sameShape:
  assumes "updateSpherePosition canvasSize c centerX centerY bands deltaTime rndX rndY = Inr (c', p)"
  shows "sameShape c c'"
proof -
  from assms obtain v where
    v: "limitVelocity (dampVelocity (addAcceleration c bands rndX rndY)) bands = Inr v"
    and c': "c' = clampPosition canvasSize (movePosition v deltaTime)"
    by (rule updateSpherePosition_result)
  have "sameShape c (dampVelocity (addAcceleration c bands rndX rndY))"
    by (rule sameShape_trans [OF sameShape_addAcceleration sameShape_dampVelocity])
  moreover have "sameShape (dampVelocity (addAcceleration c bands rndX rndY)) v"
    using v by (rule sameShape_limitVelocity)
  moreover have "sameShape v c'"
    unfolding c' by (rule sameShape_trans [OF sameShape_movePosition sameShape_clampPosition])
  ultimately show ?thesis by (blast intro: sameShape_trans)
qed

subsection \<open>Velocity limit\<close>

text \<open>
  Over the reals the limiter rescales to exactly the cap. These lemmas serve to show that
  the update returns; the limit as the doubles compute it is treated in its own section.
\<close>

lemma rescaled_magnitude:
  fixes vx vy cap :: real
  assumes m: "m = sqrt (vx * vx + vy * vy)" and pos: "m \<noteq> 0" and cap: "0 \<le> cap"
  shows "sqrt ((vx / m * cap)\<^sup>2 + (vy / m * cap)\<^sup>2) = cap"
proof -
  have m2: "m\<^sup>2 = vx\<^sup>2 + vy\<^sup>2"
    unfolding m by (simp add: real_sqrt_pow2 power2_eq_square)
  have "(vx / m * cap)\<^sup>2 + (vy / m * cap)\<^sup>2 = (vx\<^sup>2 + vy\<^sup>2) / m\<^sup>2 * cap\<^sup>2"
    by (simp add: power_mult_distrib power_divide add_divide_distrib distrib_right)
  also have "\<dots> = cap\<^sup>2"
    using pos by (simp add: m2 [symmetric])
  finally show ?thesis using cap by simp
qed

lemma limitVelocity_bound:
  assumes cap: "0 \<le> 0.5 + movementFactor bands * 0.5"
  shows "\<exists>v. limitVelocity c bands = Inr v \<and>
           sqrt ((velocityX v)\<^sup>2 + (velocityY v)\<^sup>2) \<le> 0.5 + movementFactor bands * 0.5"
proof -
  define m where "m = sqrt (velocityX c * velocityX c + velocityY c * velocityY c)"
  define M where "M = 0.5 + movementFactor bands * 0.5"
  show ?thesis
  proof (cases "m > M")
    case True
    then have nz: "m \<noteq> 0" using cap by (simp add: M_def)
    have v: "limitVelocity c bands =
               Inr (c\<lparr>velocityX := velocityX c / m * M, velocityY := velocityY c / m * M\<rparr>)"
      using True nz by (simp add: limitVelocity_def Let_def m_def M_def)
    have "sqrt ((velocityX c / m * M)\<^sup>2 + (velocityY c / m * M)\<^sup>2) = M"
      using m_def nz cap unfolding M_def by (rule rescaled_magnitude)
    then show ?thesis using v by (simp add: M_def)
  next
    case False
    then have v: "limitVelocity c bands = Inr c"
      by (simp add: limitVelocity_def Let_def m_def M_def)
    have "sqrt ((velocityX c)\<^sup>2 + (velocityY c)\<^sup>2) = m"
      by (simp add: m_def power2_eq_square)
    then show ?thesis using v False by (simp add: M_def)
  qed
qed

lemma velocity_movePosition [simp]:
  "velocityX (movePosition c deltaTime) = velocityX c"
  "velocityY (movePosition c deltaTime) = velocityY c"
  by (simp_all add: movePosition_def)

lemma velocity_clampPosition [simp]:
  "velocityX (clampPosition canvasSize c) = velocityX c"
  "velocityY (clampPosition canvasSize c) = velocityY c"
  by (simp_all add: clampPosition_def Let_def)

lemma updateSpherePosition_velocity_bound:
  assumes cap: "0 \<le> 0.5 + movementFactor bands * 0.5"
  shows "\<exists>c' p. updateSpherePosition canvasSize c centerX centerY bands deltaTime rndX rndY
                  = Inr (c', p) \<and>
           sqrt ((velocityX c')\<^sup>2 + (velocityY c')\<^sup>2) \<le> 0.5 + movementFactor bands * 0.5"
proof -
  from limitVelocity_bound [OF cap] obtain v where
    v: "limitVelocity (dampVelocity (addAcceleration c bands rndX rndY)) bands = Inr v"
    and b: "sqrt ((velocityX v)\<^sup>2 + (velocityY v)\<^sup>2) \<le> 0.5 + movementFactor bands * 0.5"
    by blast
  show ?thesis
    using v b by (simp add: updateSpherePosition_def Let_def)
qed

subsection \<open>Displacement limit\<close>

lemma clamp_range:
  fixes d v :: real
  assumes "0 \<le> d"
  shows "- d \<le> max (min v d) (- d)" and "max (min v d) (- d) \<le> d"
  using assms by auto

lemma withinDisplacement_clampPosition:
  assumes "0 \<le> canvasSize"
  shows "withinDisplacement canvasSize (clampPosition canvasSize c)"
proof -
  define d where "d = canvasSize * 0.05"
  have d: "0 \<le> d" using assms by (simp add: d_def)
  show ?thesis
    unfolding withinDisplacement_def clampPosition_def Let_def d_def [symmetric]
    using clamp_range [OF d] by simp
qed

text \<open>
  The limit presupposes a non-negative size: for a negative one \<open>Math.max\<close> wins and both
  offsets are set to \<open>- (size * 0.05)\<close>.
\<close>

lemma clampPosition_negative_size:
  assumes "canvasSize < 0"
  shows "cfg_x (clampPosition canvasSize c) = - (canvasSize * 0.05)"
    and "cfg_y (clampPosition canvasSize c) = - (canvasSize * 0.05)"
proof -
  define d where "d = canvasSize * 0.05"
  have d: "d < 0" using assms by (simp add: d_def)
  have "max (min v d) (- d) = - d" for v :: real
    using d by (simp add: max_def min_def)
  then show "cfg_x (clampPosition canvasSize c) = - (canvasSize * 0.05)"
    and "cfg_y (clampPosition canvasSize c) = - (canvasSize * 0.05)"
    unfolding clampPosition_def Let_def d_def [symmetric] by simp_all
qed

lemma updateSpherePosition_within:
  assumes "updateSpherePosition canvasSize c centerX centerY bands deltaTime rndX rndY = Inr (c', p)"
    and "0 \<le> canvasSize"
  shows "withinDisplacement canvasSize c'"
proof -
  from assms(1) obtain v where "c' = clampPosition canvasSize (movePosition v deltaTime)"
    by (rule updateSpherePosition_result)
  then show ?thesis using assms(2) by (simp add: withinDisplacement_clampPosition)
qed

lemma movementFactor_simulated_nonneg:
  "0 \<le> movementFactor (simulateAudioBands audioLevel st time rnd)"
  unfolding movementFactor_def
  using simulateAudioBands_transient_nonneg [of audioLevel st time rnd]
    simulateAudioBands_mid_nonneg [of audioLevel st time rnd]
  by simp

lemma positionTick_defined:
  "\<exists>c'. positionTick canvasSize c t = Inr c' \<and> (0 \<le> canvasSize \<longrightarrow> withinDisplacement canvasSize c')"
proof -
  define bands where
    "bands = simulateAudioBands (tickAudioLevel t) (tickState t) (tickTime t) (tickRnd t)"
  have "0 \<le> 0.5 + movementFactor bands * 0.5"
    using movementFactor_simulated_nonneg [of "tickAudioLevel t" "tickState t" "tickTime t" "tickRnd t"]
    by (simp add: bands_def)
  from updateSpherePosition_velocity_bound [OF this]
  obtain c' p where r: "updateSpherePosition canvasSize c (tickCenterX t) (tickCenterY t) bands
       (tickDeltaTime t) (tickRndX t) (tickRndY t) = Inr (c', p)"
    by blast
  then have "positionTick canvasSize c t = Inr c'"
    by (simp add: positionTick_def bands_def Let_def)
  moreover have "0 \<le> canvasSize \<longrightarrow> withinDisplacement canvasSize c'"
    using updateSpherePosition_within [OF r] by blast
  ultimately show ?thesis by blast
qed

lemma positionTicks_within:
  assumes "0 \<le> canvasSize" and "withinDisplacement canvasSize c"
  shows "\<exists>c'. positionTicks canvasSize c ts = Inr c' \<and> withinDisplacement canvasSize c'"
  using assms(2)
proof (induction ts arbitrary: c)
  case Nil
  then show ?case by simp
next
  case (Cons t ts)
  from positionTick_defined [of canvasSize c t] assms(1)
  obtain c1 where c1: "positionTick canvasSize c t = Inr c1" "withinDisplacement canvasSize c1"
    by blast
  from Cons.IH [OF c1(2)] show ?case using c1(1) by simp
qed

lemma withinDisplacement_initialConfig:
  "0 \<le> canvasSize \<Longrightarrow> withinDisplacement canvasSize (initialConfig canvasSize)"
  by (simp add: withinDisplacement_def initialConfig_def)

text \<open>
  C1: for a non-negative canvas size, after any finite sequence of position ticks from the
  initial configuration (any agent state, audio level, time, random draws, centre and
  delta time in each tick) the update returns a configuration whose offsets \<open>x\<close> and \<open>y\<close>
  lie within plus or minus \<open>size * 0.05\<close>; and a single call of \<open>updateSpherePosition\<close>
  establishes the bound from any configuration and any bands, whatever velocity the
  tick produced.
\<close>

theorem position_offset_clamped:
  assumes "0 \<le> canvasSize"
  shows "(\<exists>c'. positionTicks canvasSize (initialConfig canvasSize) ts = Inr c' \<and>
            - (canvasSize * 0.05) \<le> cfg_x c' \<and> cfg_x c' \<le> canvasSize * 0.05 \<and>
            - (canvasSize * 0.05) \<le> cfg_y c' \<and> cfg_y c' \<le> canvasSize * 0.05) \<and>
         (\<forall>c centerX centerY bands deltaTime rndX rndY c' p.
            updateSpherePosition canvasSize c centerX centerY bands deltaTime rndX rndY = Inr (c', p)
            \<longrightarrow> - (canvasSize * 0.05) \<le> cfg_x c' \<and> cfg_x c' \<le> canvasSize * 0.05 \<and>
                - (canvasSize * 0.05) \<le> cfg_y c' \<and> cfg_y c' \<le> canvasSize * 0.05)"
proof (rule conjI)
  show "\<exists>c'. positionTicks canvasSize (initialConfig canvasSize) ts = Inr c' \<and>
            - (canvasSize * 0.05) \<le> cfg_x c' \<and> cfg_x c' \<le> canvasSize * 0.05 \<and>
            - (canvasSize * 0.05) \<le> cfg_y c' \<and> cfg_y c' \<le> canvasSize * 0.05"
    using positionTicks_within [OF assms withinDisplacement_initialConfig [OF assms], of ts]
    by (simp add: withinDisplacement_def)
next
  show "\<forall>c centerX centerY bands deltaTime rndX rndY c' p.
            updateSpherePosition canvasSize c centerX centerY bands deltaTime rndX rndY = Inr (c', p)
            \<longrightarrow> - (canvasSize * 0.05) \<le> cfg_x c' \<and> cfg_x c' \<le> canvasSize * 0.05 \<and>
                - (canvasSize * 0.05) \<le> cfg_y c' \<and> cfg_y c' \<le> canvasSize * 0.05"
  proof (intro allI impI)
    fix c centerX centerY bands deltaTime rndX rndY c' p
    assume "updateSpherePosition canvasSize c centerX centerY bands deltaTime rndX rndY = Inr (c', p)"
    from updateSpherePosition_within [OF this assms]
    show "- (canvasSize * 0.05) \<le> cfg_x c' \<and> cfg_x c' \<le> canvasSize * 0.05 \<and>
          - (canvasSize * 0.05) \<le> cfg_y c' \<and> cfg_y c' \<le> canvasSize * 0.05"
      by (simp add: withinDisplacement_def)
  qed
qed

text \<open>
  C10: \<open>updateSpherePosition\<close> changes only the velocity and offset fields: whenever it
  returns, \<open>baseRadius\<close>, \<open>maxExtraRadius\<close>, \<open>arcCount\<close>, \<open>arcWidth\<close>, \<open>rotation\<close> and
  \<open>distortion\<close> are as before and the returned position is the centre plus the new
  offset. It returns for every input except the one where the damped velocity is zero
  under a negative velocity cap, where JavaScript yields \<open>NaN\<close>.
\<close>

theorem updateSpherePosition_frame:
  "(updateSpherePosition canvasSize c centerX centerY bands deltaTime rndX rndY = Inl NotANumber
      \<longleftrightarrow> velocityX (dampVelocity (addAcceleration c bands rndX rndY)) = 0 \<and>
          velocityY (dampVelocity (addAcceleration c bands rndX rndY)) = 0 \<and>
          0.5 + movementFactor bands * 0.5 < 0) \<and>
   (\<forall>c' p. updateSpherePosition canvasSize c centerX centerY bands deltaTime rndX rndY = Inr (c', p)
      \<longrightarrow> baseRadius c' = baseRadius c \<and> maxExtraRadius c' = maxExtraRadius c \<and>
          arcCount c' = arcCount c \<and> arcWidth c' = arcWidth c \<and>
          rotation c' = rotation c \<and> distortion c' = distortion c \<and>
          p = (centerX + cfg_x c', centerY + cfg_y c'))"
proof (intro conjI allI impI)
  show "updateSpherePosition canvasSize c centerX centerY bands deltaTime rndX rndY = Inl NotANumber
      \<longleftrightarrow> velocityX (dampVelocity (addAcceleration c bands rndX rndY)) = 0 \<and>
          velocityY (dampVelocity (addAcceleration c bands rndX rndY)) = 0 \<and>
          0.5 + movementFactor bands * 0.5 < 0"
    by (simp add: updateSpherePosition_error limitVelocity_error)
next
  fix c' p
  assume r: "updateSpherePosition canvasSize c centerX centerY bands deltaTime rndX rndY = Inr (c', p)"
  from updateSpherePosition_sameShape [OF r]
  show "baseRadius c' = baseRadius c" "maxExtraRadius c' = maxExtraRadius c"
    "arcCount c' = arcCount c" "arcWidth c' = arcWidth c"
    "rotation c' = rotation c" "distortion c' = distortion c"
    by (simp_all add: sameShape_def)
  from r show "p = (centerX + cfg_x c', centerY + cfg_y c')"
    by (rule updateSpherePosition_result)
qed


subsection \<open>Concrete ticks\<close>

lemmas position_defs =
  updateSpherePosition_def limitVelocity_def dampVelocity_def addAcceleration_def
  movePosition_def clampPosition_def movementFactor_def initialConfig_def Let_def

theorem position_offset_clamped_witness:
  "(0::real) \<le> 300 \<and>
   (\<exists>c'. positionTicks 300 (initialConfig 300)
           [\<lparr>tickAudioLevel = 1, tickState = speaking, tickTime = 0, tickRnd = 0.9,
             tickCenterX = 150, tickCenterY = 150, tickDeltaTime = 40,
             tickRndX = 0.9, tickRndY = 0.1\<rparr>] = Inr c' \<and>
         - (300 * 0.05) \<le> cfg_x c' \<and> cfg_x c' \<le> 300 * 0.05 \<and>
         - (300 * 0.05) \<le> cfg_y c' \<and> cfg_y c' \<le> 300 * 0.05) \<and>
   updateSpherePosition 300 ((initialConfig 300)\<lparr>cfg_x := 100, cfg_y := - 100\<rparr>) 150 150
       \<lparr>low = 0, mid = 0, high = 0, transient = 0\<rparr> 40 0.5 0.5
     = Inr ((initialConfig 300)\<lparr>cfg_x := 15, cfg_y := - 15\<rparr>, (165, 135)) \<and>
   - (300 * 0.05) \<le> cfg_x ((initialConfig 300)\<lparr>cfg_x := 15, cfg_y := - 15\<rparr>) \<and>
   cfg_x ((initialConfig 300)\<lparr>cfg_x := 15, cfg_y := - 15\<rparr>) \<le> 300 * 0.05"
proof -
  have h: "(0::real) \<le> 300" by simp
  have e: "updateSpherePosition 300 ((initialConfig 300)\<lparr>cfg_x := 100, cfg_y := - 100\<rparr>) 150 150
       \<lparr>low = 0, mid = 0, high = 0, transient = 0\<rparr> 40 0.5 0.5
     = Inr ((initialConfig 300)\<lparr>cfg_x := 15, cfg_y := - 15\<rparr>, (165, 135))"
    by (simp add: position_defs)
  from position_offset_clamped [OF h, of
      "[\<lparr>tickAudioLevel = 1, tickState = speaking, tickTime = 0, tickRnd = 0.9,
             tickCenterX = 150, tickCenterY = 150, tickDeltaTime = 40,
             tickRndX = 0.9, tickRndY = 0.1\<rparr>]"] e h
  show ?thesis by blast
qed

theorem updateSpherePosition_frame_witness:
  "updateSpherePosition 300 ((initialConfig 300)\<lparr>cfg_x := 100, cfg_y := - 100\<rparr>) 150 150
       \<lparr>low = 0, mid = 0, high = 0, transient = 0\<rparr> 40 0.5 0.5
     = Inr ((initialConfig 300)\<lparr>cfg_x := 15, cfg_y := - 15\<rparr>, (165, 135)) \<and>
   baseRadius ((initialConfig 300)\<lparr>cfg_x := 15, cfg_y := - 15\<rparr>) = 105 \<and>
   arcCount ((initialConfig 300)\<lparr>cfg_x := 15, cfg_y := - 15\<rparr>) = 3 \<and>
   updateSpherePosition 300 (initialConfig 300) 150 150
       \<lparr>low = 0, mid = 0, high = 0, transient = - 1\<rparr> 40 0.5 0.5 = Inl NotANumber"
proof -
  have e: "updateSpherePosition 300 ((initialConfig 300)\<lparr>cfg_x := 100, cfg_y := - 100\<rparr>) 150 150
       \<lparr>low = 0, mid = 0, high = 0, transient = 0\<rparr> 40 0.5 0.5
     = Inr ((initialConfig 300)\<lparr>cfg_x := 15, cfg_y := - 15\<rparr>, (165, 135))"
    by (simp add: position_defs)
  have n: "velocityX (dampVelocity (addAcceleration (initialConfig 300)
               \<lparr>low = 0, mid = 0, high = 0, transient = - 1\<rparr> 0.5 0.5)) = 0 \<and>
           velocityY (dampVelocity (addAcceleration (initialConfig 300)
               \<lparr>low = 0, mid = 0, high = 0, transient = - 1\<rparr> 0.5 0.5)) = 0 \<and>
           0.5 + movementFactor \<lparr>low = 0, mid = 0, high = 0, transient = - 1\<rparr> * 0.5 < 0"
    by (simp add: position_defs)
  from updateSpherePosition_frame [of 300 "(initialConfig 300)\<lparr>cfg_x := 100, cfg_y := - 100\<rparr>"
      150 150 "\<lparr>low = 0, mid = 0, high = 0, transient = 0\<rparr>" 40 "0.5" "0.5"] e
  have "baseRadius ((initialConfig 300)\<lparr>cfg_x := 15, cfg_y := - 15\<rparr>)
          = baseRadius ((initialConfig 300)\<lparr>cfg_x := 100, cfg_y := - 100\<rparr>)"
    and "arcCount ((initialConfig 300)\<lparr>cfg_x := 15, cfg_y := - 15\<rparr>)
          = arcCount ((initialConfig 300)\<lparr>cfg_x := 100, cfg_y := - 100\<rparr>)"
    by blast+
  moreover from updateSpherePosition_frame [of 300 "initialConfig 300" 150 150
      "\<lparr>low = 0, mid = 0, high = 0, transient = - 1\<rparr>" 40 "0.5" "0.5"] n
  have "updateSpherePosition 300 (initialConfig 300) 150 150
       \<lparr>low = 0, mid = 0, high = 0, transient = - 1\<rparr> 40 0.5 0.5 = Inl NotANumber"
    by blast
  ultimately show ?thesis using e by (simp add: initialConfig_def)
qed

section \<open>Velocity limit in double arithmetic\<close>

subsection \<open>Rounding\<close>

lemma round_even_error: "\<bar>of_int (round_even q) - q\<bar> \<le> 1 / 2"
proof -
  have "of_int \<lfloor>q\<rfloor> \<le> q" "q < of_int \<lfloor>q\<rfloor> + 1" by linarith+
  then show ?thesis
    by (auto simp add: round_even_def Let_def)
qed

lemma round_even_eqI:
  assumes "\<bar>q - of_int n\<bar> < 1 / 2"
  shows "round_even q = n"
proof -
  have l: "of_int \<lfloor>q\<rfloor> \<le> q" and r: "q < of_int \<lfloor>q\<rfloor> + 1" by linarith+
  from assms have a: "of_int n - 1 / 2 < q" "q < of_int n + 1 / 2" by linarith+
  have "\<lfloor>q\<rfloor> = n \<or> \<lfloor>q\<rfloor> = n - 1"
    using a by linarith
  then show ?thesis
  proof
    assume f: "\<lfloor>q\<rfloor> = n"
    with a l show ?thesis by (simp add: round_even_def Let_def)
  next
    assume f: "\<lfloor>q\<rfloor> = n - 1"
    with a l r show ?thesis by (auto simp add: round_even_def Let_def)
  qed
qed

lemma double_zero [simp]: "double 0 = 0"
  by (simp add: double_def)

lemma double_error: "\<bar>double v - v\<bar> \<le> unit_roundoff * \<bar>v\<bar>"
proof (cases "v = 0")
  case True
  then show ?thesis by simp
next
  case False
  define e where "e = \<lfloor>log 2 \<bar>v\<bar>\<rfloor>"
  define ulp :: real where "ulp = 2 powr (of_int e - 52)"
  have pos: "0 < \<bar>v\<bar>" using False by simp
  have "2 powr of_int e \<le> \<bar>v\<bar>"
    using floor_log_eq_powr_iff [of "\<bar>v\<bar>" 2 e] pos by (simp add: e_def)
  have u: "0 < ulp" by (simp add: ulp_def)
  have d: "double v = of_int (round_even (v / ulp)) * ulp"
    using False by (simp add: double_def Let_def e_def ulp_def)
  have "\<bar>double v - v\<bar> = \<bar>of_int (round_even (v / ulp)) - v / ulp\<bar> * ulp"
  proof -
    have "double v - v = (of_int (round_even (v / ulp)) - v / ulp) * ulp"
      using u by (simp add: d field_simps)
    then show ?thesis using u by (simp add: abs_mult)
  qed
  also have "\<dots> \<le> 1 / 2 * ulp"
    using round_even_error [of "v / ulp"] u by (intro mult_right_mono) simp_all
  also have "1 / 2 * ulp = unit_roundoff * 2 powr of_int e"
    by (simp add: ulp_def unit_roundoff_def powr_diff)
  also have "\<dots> \<le> unit_roundoff * \<bar>v\<bar>"
    using \<open>2 powr of_int e \<le> \<bar>v\<bar>\<close> by (intro mult_left_mono) (simp_all add: unit_roundoff_def)
  finally show ?thesis .
qed

lemma double_eqI:
  assumes e: "2 powr of_int e \<le> \<bar>v\<bar>" "\<bar>v\<bar> < 2 powr (of_int e + 1)"
    and ulp: "ulp = 2 powr (of_int e - 52)"
    and n: "\<bar>v / ulp - of_int n\<bar> < 1 / 2"
  shows "double v = of_int n * ulp"
proof -
  have "(0::real) < 2 powr of_int e" by simp
  with e(1) have pos: "0 < \<bar>v\<bar>" by linarith
  then have nz: "v \<noteq> 0" by simp
  have fl: "\<lfloor>log 2 \<bar>v\<bar>\<rfloor> = e"
    using floor_log_eq_powr_iff [of "\<bar>v\<bar>" 2 e] pos e by simp
  show ?thesis
    using nz by (simp add: double_def Let_def fl ulp [symmetric] round_even_eqI [OF n])
qed

lemma nearest_between:
  fixes r w k :: real
  assumes "(k - 1 / 2) * w < r" and "r < (k + 1 / 2) * w" and "0 < w"
  shows "\<bar>r / w - k\<bar> < 1 / 2"
proof -
  have "k - 1 / 2 < r / w" using assms(1,3) by (simp add: pos_less_divide_eq)
  moreover have "r / w < k + 1 / 2" using assms(2,3) by (simp add: pos_divide_less_eq)
  ultimately show ?thesis by linarith
qed

subsection \<open>A concrete call\<close>

lemma double_seven: "double (7) = 7"
proof -
  have "double (7) = of_int 7881299347898368 * (1 / 2 ^ 50)"
    by (rule double_eqI [where e = "2"]) (simp_all add: powr_minus powr_numeral)
  then show ?thesis by simp
qed

lemma double_half: "double (1 / 2) = 1 / 2"
proof -
  have "double (1 / 2) = of_int 4503599627370496 * (1 / 2 ^ 53)"
    by (rule double_eqI [where e = "- 1"]) (simp_all add: powr_minus powr_numeral)
  then show ?thesis by simp
qed

lemma double_0_95: "double (19 / 20) = 4278419646001971 / 4503599627370496"
proof -
  have "double (19 / 20) = of_int 8556839292003942 * (1 / 2 ^ 53)"
    by (rule double_eqI [where e = "- 1"]) (simp_all add: powr_minus powr_numeral)
  then show ?thesis by simp
qed

lemma double_damped: "double (29948937522013797 / 4503599627370496) = 7487234380503449 / 1125899906842624"
proof -
  have "double (29948937522013797 / 4503599627370496) = of_int 7487234380503449 * (1 / 2 ^ 50)"
    by (rule double_eqI [where e = "2"]) (simp_all add: powr_minus powr_numeral)
  then show ?thesis by simp
qed

lemma double_square: "double (56058678668592865723006700895601 / 1267650600228229401496703205376) = 6223763578793491 / 140737488355328"
proof -
  have "double (56058678668592865723006700895601 / 1267650600228229401496703205376) = of_int 6223763578793491 * (1 / 2 ^ 47)"
    by (rule double_eqI [where e = "5"]) (simp_all add: powr_minus powr_numeral)
  then show ?thesis by simp
qed

lemma double_sum: "double (6223763578793491 / 70368744177664) = 6223763578793491 / 70368744177664"
proof -
  have "double (6223763578793491 / 70368744177664) = of_int 6223763578793491 * (1 / 2 ^ 46)"
    by (rule double_eqI [where e = "6"]) (simp_all add: powr_minus powr_numeral)
  then show ?thesis by simp
qed

lemma double_quotient: "double (7487234380503449 / 10588548405574096) = 6369051672525773 / 9007199254740992"
proof -
  have "double (7487234380503449 / 10588548405574096) = of_int 6369051672525773 * (1 / 2 ^ 53)"
    by (rule double_eqI [where e = "- 1"]) (simp_all add: powr_minus powr_numeral)
  then show ?thesis by simp
qed

lemma double_rescaled: "double (6369051672525773 / 18014398509481984) = 6369051672525773 / 18014398509481984"
proof -
  have "double (6369051672525773 / 18014398509481984) = of_int 6369051672525773 * (1 / 2 ^ 54)"
    by (rule double_eqI [where e = "- 2"]) (simp_all add: powr_minus powr_numeral)
  then show ?thesis by simp
qed

lemma double_minus_two: "double (- 2) = - 2"
proof -
  have "double (- 2) = of_int (- 4503599627370496) * (1 / 2 ^ 51)"
    by (rule double_eqI [where e = "1"]) (simp_all add: powr_minus powr_numeral)
  then show ?thesis by simp
qed

lemma double_minus_one: "double (- 1) = - 1"
proof -
  have "double (- 1) = of_int (- 4503599627370496) * (1 / 2 ^ 52)"
    by (rule double_eqI [where e = "0"]) (simp_all add: powr_minus powr_numeral)
  then show ?thesis by simp
qed

lemma double_minus_half: "double (- 1 / 2) = - 1 / 2"
proof -
  have "double (- 1 / 2) = of_int (- 4503599627370496) * (1 / 2 ^ 53)"
    by (rule double_eqI [where e = "- 1"]) (simp_all add: powr_minus powr_numeral)
  then show ?thesis by simp
qed

lemma double_rescaled_neg: "double (- 6369051672525773 / 18014398509481984) = - 6369051672525773 / 18014398509481984"
proof -
  have "double (- 6369051672525773 / 18014398509481984) = of_int (- 6369051672525773) * (1 / 2 ^ 54)"
    by (rule double_eqI [where e = "- 2"]) (simp_all add: powr_minus powr_numeral)
  then show ?thesis by simp
qed

lemma double_magnitude: "double (sqrt (6223763578793491 / 70368744177664)) = 661784275348381 / 70368744177664"
proof -
  have lo: "10588548405574095 / 1125899906842624 < sqrt (6223763578793491 / 70368744177664)"
    by (rule real_less_rsqrt) (simp add: power2_eq_square)
  have hi: "sqrt (6223763578793491 / 70368744177664) < 10588548405574097 / 1125899906842624"
    by (rule real_less_lsqrt) (simp_all add: power2_eq_square)
  have "double (sqrt (6223763578793491 / 70368744177664)) = of_int 5294274202787048 * (1 / 2 ^ 49)"
  proof (rule double_eqI [where e = 3])
    show "2 powr real_of_int 3 \<le> \<bar>sqrt (6223763578793491 / 70368744177664)\<bar>"
      using lo by (simp add: powr_numeral)
    show "\<bar>sqrt (6223763578793491 / 70368744177664)\<bar> < 2 powr (real_of_int 3 + 1)"
      using hi by (simp add: powr_numeral)
    show "1 / 2 ^ 49 = 2 powr (real_of_int 3 - 52)"
      by (simp add: powr_minus powr_numeral)
    show "\<bar>sqrt (6223763578793491 / 70368744177664) / (1 / 2 ^ 49) - real_of_int 5294274202787048\<bar> < 1 / 2"
    proof (rule nearest_between)
      show "(real_of_int 5294274202787048 - 1 / 2) * (1 / 2 ^ 49)
              < sqrt (6223763578793491 / 70368744177664)"
        using lo by simp
      show "sqrt (6223763578793491 / 70368744177664)
              < (real_of_int 5294274202787048 + 1 / 2) * (1 / 2 ^ 49)"
        using hi by simp
      show "(0::real) < 1 / 2 ^ 49" by simp
    qed
  qed
  then show ?thesis by simp
qed



lemma velocity_after_position_d [simp]:
  "velocityX (clampPosition_d canvasSize (movePosition_d c deltaTime)) = velocityX c"
  "velocityY (clampPosition_d canvasSize (movePosition_d c deltaTime)) = velocityY c"
  by (simp_all add: clampPosition_d_def movePosition_d_def Let_def)

lemma resultVelocity_d:
  "resultVelocity (updateSpherePosition_d canvasSize c centerX centerY bands deltaTime rndX rndY) =
    (case limitVelocity_d (dampVelocity_d (addAcceleration_d c bands rndX rndY)) bands of
       Inl e \<Rightarrow> None
     | Inr v \<Rightarrow> Some (velocityX v, velocityY v))"
  by (simp add: resultVelocity_def updateSpherePosition_d_def Let_def split: sum.splits)

lemma movementFactor_d_silent: "movementFactor_d silentBands = 0"
  by (simp add: movementFactor_d_def silentBands_def)

lemma movementFactor_d_negative: "movementFactor_d negativeBands = - 2"
  using double_minus_two by (simp add: movementFactor_d_def negativeBands_def)

lemma fast_accelerated:
  "addAcceleration_d fastConfig silentBands 0.5 0.5 = fastConfig"
  "addAcceleration_d fastConfig negativeBands 0.5 0.5 = fastConfig"
  using double_seven
  by (simp_all add: addAcceleration_d_def movementFactor_d_silent movementFactor_d_negative
      fastConfig_def Let_def)

lemma fast_damped:
  "dampVelocity_d fastConfig =
     fastConfig\<lparr>velocityX := 7487234380503449 / 1125899906842624,
                velocityY := 7487234380503449 / 1125899906842624\<rparr>"
proof -
  have "double (7 * double 0.95) = 7487234380503449 / 1125899906842624"
  proof -
    have "7 * double 0.95 = 29948937522013797 / 4503599627370496"
      using double_0_95 by simp
    then show ?thesis by (simp only: double_damped)
  qed
  then show ?thesis by (simp add: dampVelocity_d_def fastConfig_def)
qed

lemma fast_magnitude:
  "double (sqrt (double (double (7487234380503449 / 1125899906842624 * (7487234380503449 / 1125899906842624))
      + double (7487234380503449 / 1125899906842624 * (7487234380503449 / 1125899906842624)))))
    = 661784275348381 / 70368744177664"
proof -
  have sq: "double (7487234380503449 / 1125899906842624 * (7487234380503449 / 1125899906842624))
      = 6223763578793491 / 140737488355328"
  proof -
    have "7487234380503449 / 1125899906842624 * (7487234380503449 / 1125899906842624)
        = (56058678668592865723006700895601 / 1267650600228229401496703205376 :: real)"
      by simp
    then show ?thesis by (simp only: double_square)
  qed
  have "6223763578793491 / 140737488355328 + 6223763578793491 / 140737488355328
      = (6223763578793491 / 70368744177664 :: real)"
    by simp
  then show ?thesis by (simp only: sq double_sum double_magnitude)
qed

lemma fast_quotient:
  "double (7487234380503449 / 1125899906842624 / (661784275348381 / 70368744177664))
     = 6369051672525773 / 9007199254740992"
proof -
  have "7487234380503449 / 1125899906842624 / (661784275348381 / 70368744177664)
      = (7487234380503449 / 10588548405574096 :: real)"
    by simp
  then show ?thesis by (simp only: double_quotient)
qed


lemma fast_limited:
  "limitVelocity_d (fastConfig\<lparr>velocityX := 7487234380503449 / 1125899906842624, velocityY := 7487234380503449 / 1125899906842624\<rparr>) silentBands
     = Inr (fastConfig\<lparr>velocityX := 6369051672525773 / 18014398509481984, velocityY := 6369051672525773 / 18014398509481984\<rparr>)"
proof -
  let ?c = "fastConfig\<lparr>velocityX := 7487234380503449 / 1125899906842624, velocityY := 7487234380503449 / 1125899906842624\<rparr>"
  have vx: "velocityX ?c = 7487234380503449 / 1125899906842624" "velocityY ?c = 7487234380503449 / 1125899906842624"
    by simp_all
  have cap: "double (0.5 + double (movementFactor_d silentBands * 0.5)) = 1 / 2"
    using double_half by (simp add: movementFactor_d_silent)
  have mag: "double (sqrt (double (double (velocityX ?c * velocityX ?c)
      + double (velocityY ?c * velocityY ?c)))) = 661784275348381 / 70368744177664"
    unfolding vx by (rule fast_magnitude)
  have quot: "double (velocityX ?c / (661784275348381 / 70368744177664)) = 6369051672525773 / 9007199254740992" "double (velocityY ?c / (661784275348381 / 70368744177664)) = 6369051672525773 / 9007199254740992"
    unfolding vx by (rule fast_quotient)+
  have resc: "double (6369051672525773 / 9007199254740992 * (1 / 2)) = 6369051672525773 / 18014398509481984"
  proof -
    have "6369051672525773 / 9007199254740992 * (1 / 2) = (6369051672525773 / 18014398509481984 :: real)" by simp
    then show ?thesis by (simp only: double_rescaled)
  qed
  show ?thesis
    unfolding limitVelocity_d_def Let_def cap mag quot resc by simp
qed

lemma fast_limited_negative:
  "limitVelocity_d (fastConfig\<lparr>velocityX := 7487234380503449 / 1125899906842624, velocityY := 7487234380503449 / 1125899906842624\<rparr>) negativeBands
     = Inr (fastConfig\<lparr>velocityX := - (6369051672525773 / 18014398509481984), velocityY := - (6369051672525773 / 18014398509481984)\<rparr>)"
proof -
  let ?c = "fastConfig\<lparr>velocityX := 7487234380503449 / 1125899906842624, velocityY := 7487234380503449 / 1125899906842624\<rparr>"
  have vx: "velocityX ?c = 7487234380503449 / 1125899906842624" "velocityY ?c = 7487234380503449 / 1125899906842624"
    by simp_all
  have cap: "double (0.5 + double (movementFactor_d negativeBands * 0.5)) = - (1 / 2)"
    using double_minus_one double_minus_half by (simp add: movementFactor_d_negative)
  have mag: "double (sqrt (double (double (velocityX ?c * velocityX ?c)
      + double (velocityY ?c * velocityY ?c)))) = 661784275348381 / 70368744177664"
    unfolding vx by (rule fast_magnitude)
  have quot: "double (velocityX ?c / (661784275348381 / 70368744177664)) = 6369051672525773 / 9007199254740992" "double (velocityY ?c / (661784275348381 / 70368744177664)) = 6369051672525773 / 9007199254740992"
    unfolding vx by (rule fast_quotient)+
  have resc: "double (6369051672525773 / 9007199254740992 * - (1 / 2)) = - (6369051672525773 / 18014398509481984)"
  proof -
    have "6369051672525773 / 9007199254740992 * - (1 / 2) = (- 6369051672525773 / 18014398509481984 :: real)" by simp
    then show ?thesis using double_rescaled_neg by simp
  qed
  show ?thesis
    unfolding limitVelocity_d_def Let_def cap mag quot resc by simp
qed

lemma fast_velocity:
  "resultVelocity (updateSpherePosition_d 300 fastConfig 150 150 silentBands 40 0.5 0.5)
     = Some (6369051672525773 / 18014398509481984, 6369051672525773 / 18014398509481984)"
  unfolding resultVelocity_d fast_accelerated fast_damped fast_limited by simp

lemma fast_velocity_negative:
  "resultVelocity (updateSpherePosition_d 300 fastConfig 150 150 negativeBands 40 0.5 0.5)
     = Some (- (6369051672525773 / 18014398509481984), - (6369051672525773 / 18014398509481984))"
  unfolding resultVelocity_d fast_accelerated fast_damped fast_limited_negative by simp

text \<open>
  C2 as stated fails. With the bands of audio level 0 the cap is \<open>0.5\<close>; from the prior
  velocity \<open>(7, 7)\<close> the call stores the double \<open>0.3535533905932738\<close> in both velocity
  fields, and the magnitude of that velocity is greater than \<open>0.5\<close>. With a transient
  band of \<open>- 1\<close> the cap is \<open>- 0.5\<close>, below every magnitude.
\<close>

theorem velocity_cap_exceeded:
  "resultVelocity (updateSpherePosition_d 300 fastConfig 150 150 silentBands 40 0.5 0.5)
     = Some (6369051672525773 / 18014398509481984, 6369051672525773 / 18014398509481984) \<and>
   \<not> sqrt ((6369051672525773 / 18014398509481984)\<^sup>2 + (6369051672525773 / 18014398509481984)\<^sup>2)
       \<le> 0.5 + (transient silentBands * 2 + mid silentBands * 1.5) * 0.5 \<and>
   resultVelocity (updateSpherePosition_d 300 fastConfig 150 150 negativeBands 40 0.5 0.5)
     = Some (- (6369051672525773 / 18014398509481984), - (6369051672525773 / 18014398509481984)) \<and>
   \<not> sqrt ((- (6369051672525773 / 18014398509481984))\<^sup>2 + (- (6369051672525773 / 18014398509481984))\<^sup>2)
       \<le> 0.5 + (transient negativeBands * 2 + mid negativeBands * 1.5) * 0.5"
proof -
  have big: "1 / 2 < sqrt ((6369051672525773 / 18014398509481984)\<^sup>2 + (6369051672525773 / 18014398509481984)\<^sup>2)"
    by (rule real_less_rsqrt) (simp add: power2_eq_square)
  have "\<not> sqrt ((6369051672525773 / 18014398509481984)\<^sup>2 + (6369051672525773 / 18014398509481984)\<^sup>2)
       \<le> 0.5 + (transient silentBands * 2 + mid silentBands * 1.5) * 0.5"
    using big by (simp add: silentBands_def)
  moreover have "\<not> sqrt ((- (6369051672525773 / 18014398509481984))\<^sup>2 + (- (6369051672525773 / 18014398509481984))\<^sup>2)
       \<le> 0.5 + (transient negativeBands * 2 + mid negativeBands * 1.5) * 0.5"
    using big by (simp add: negativeBands_def)
  ultimately show ?thesis
    using fast_velocity fast_velocity_negative by blast
qed

subsection \<open>Error bound\<close>

lemma unit_roundoff_pos: "0 < unit_roundoff" and unit_roundoff_less_one: "unit_roundoff < 1"
  by (simp_all add: unit_roundoff_def)

lemma double_lower:
  assumes "0 \<le> v"
  shows "v * (1 - unit_roundoff) \<le> double v"
  using double_error [of v] assms by (simp add: algebra_simps abs_le_iff)

lemma double_upper:
  assumes "0 \<le> v"
  shows "double v \<le> v * (1 + unit_roundoff)"
  using double_error [of v] assms by (simp add: algebra_simps abs_le_iff)

lemma double_nonneg:
  assumes "0 \<le> v"
  shows "0 \<le> double v"
proof -
  have "0 \<le> v * (1 - unit_roundoff)"
    using assms unit_roundoff_less_one by (intro mult_nonneg_nonneg) simp_all
  with double_lower [OF assms] show ?thesis by linarith
qed

lemma double_abs_upper: "\<bar>double v\<bar> \<le> \<bar>v\<bar> * (1 + unit_roundoff)"
proof -
  have "\<bar>double v\<bar> \<le> \<bar>double v - v\<bar> + \<bar>v\<bar>" by linarith
  with double_error [of v] show ?thesis by (simp add: algebra_simps)
qed

lemma computed_magnitude_lower:
  "sqrt (a * a + b * b) * (1 - unit_roundoff)\<^sup>2
     \<le> double (sqrt (double (double (a * a) + double (b * b))))"
proof -
  define w where "w = 1 - unit_roundoff"
  have w: "0 \<le> w" using unit_roundoff_less_one by (simp add: w_def)
  have A: "a * a * w \<le> double (a * a)" and B: "b * b * w \<le> double (b * b)"
    unfolding w_def by (rule double_lower, simp)+
  have nn: "0 \<le> double (a * a) + double (b * b)"
    by (intro add_nonneg_nonneg double_nonneg) simp_all
  have "(a * a + b * b) * w \<le> double (a * a) + double (b * b)"
    using A B by (simp add: algebra_simps)
  then have "(a * a + b * b) * w * w \<le> (double (a * a) + double (b * b)) * w"
    using w by (rule mult_right_mono)
  also have "\<dots> \<le> double (double (a * a) + double (b * b))"
    unfolding w_def using nn by (rule double_lower)
  finally have "sqrt ((a * a + b * b) * w\<^sup>2) \<le> sqrt (double (double (a * a) + double (b * b)))"
    by (simp add: power2_eq_square mult.assoc)
  then have s: "sqrt (a * a + b * b) * w \<le> sqrt (double (double (a * a) + double (b * b)))"
    using w by (simp add: real_sqrt_mult)
  have "sqrt (a * a + b * b) * w * w \<le> sqrt (double (double (a * a) + double (b * b))) * w"
    using s w by (rule mult_right_mono)
  also have "\<dots> \<le> double (sqrt (double (double (a * a) + double (b * b))))"
    unfolding w_def by (rule double_lower) (simp add: double_nonneg nn)
  finally show ?thesis by (simp add: power2_eq_square mult.assoc w_def)
qed

lemma rescaled_component:
  assumes m: "0 < m" and M: "0 \<le> M"
  shows "\<bar>double (double (a / m) * M)\<bar> \<le> \<bar>a\<bar> * (M * (1 + unit_roundoff)\<^sup>2 / m)"
proof -
  define w where "w = 1 + unit_roundoff"
  have w: "0 \<le> w" using unit_roundoff_pos by (simp add: w_def)
  have "\<bar>double (double (a / m) * M)\<bar> \<le> \<bar>double (a / m) * M\<bar> * w"
    unfolding w_def by (rule double_abs_upper)
  also have "\<dots> = \<bar>double (a / m)\<bar> * (M * w)"
    using M by (simp add: abs_mult)
  also have "\<dots> \<le> (\<bar>a / m\<bar> * w) * (M * w)"
    using double_abs_upper [of "a / m"] M w
    by (intro mult_right_mono mult_nonneg_nonneg) (simp_all add: w_def)
  also have "\<dots> = \<bar>a\<bar> * (M * w\<^sup>2 / m)"
    using m by (simp add: power2_eq_square abs_divide)
  finally show ?thesis by (simp add: w_def)
qed

lemma magnitude_scaled:
  fixes p q a b g :: real
  assumes "\<bar>p\<bar> \<le> \<bar>a\<bar> * g" and "\<bar>q\<bar> \<le> \<bar>b\<bar> * g" and g: "0 \<le> g"
  shows "sqrt (p\<^sup>2 + q\<^sup>2) \<le> sqrt (a * a + b * b) * g"
proof -
  have "p\<^sup>2 \<le> (\<bar>a\<bar> * g)\<^sup>2" "q\<^sup>2 \<le> (\<bar>b\<bar> * g)\<^sup>2"
    using assms by (simp_all add: abs_le_square_iff [symmetric] mult_nonneg_nonneg)
  then have "p\<^sup>2 + q\<^sup>2 \<le> (a * a + b * b) * g\<^sup>2"
    by (simp add: power_mult_distrib power2_eq_square algebra_simps)
  then have "sqrt (p\<^sup>2 + q\<^sup>2) \<le> sqrt ((a * a + b * b) * g\<^sup>2)"
    by simp
  then show ?thesis using g by (simp add: real_sqrt_mult)
qed


lemma cap_d_upper:
  assumes t: "0 \<le> transient bands" and m: "0 \<le> mid bands"
  shows "0 \<le> movementFactor_d bands"
    and "0 \<le> double (0.5 + double (movementFactor_d bands * 0.5))"
    and "double (0.5 + double (movementFactor_d bands * 0.5))
           \<le> (0.5 + (transient bands * 2 + mid bands * 1.5) * 0.5) * (1 + unit_roundoff) ^ 4"
proof -
  define w where "w = 1 + unit_roundoff"
  have w: "1 \<le> w" "0 \<le> w" using unit_roundoff_pos by (simp_all add: w_def)
  define x where "x = transient bands * 2"
  define y where "y = mid bands * 1.5"
  define h :: real where "h = 0.5"
  have h: "0 \<le> h" by (simp add: h_def)
  have x: "0 \<le> x" and y: "0 \<le> y" using t m by (simp_all add: x_def y_def)
  have dx: "double x \<le> x * w" and dy: "double y \<le> y * w"
    unfolding w_def by (rule double_upper [OF x], rule double_upper [OF y])
  have s0: "0 \<le> double x + double y"
    by (intro add_nonneg_nonneg double_nonneg x y)
  have mfd: "movementFactor_d bands = double (double x + double y)"
    by (simp add: movementFactor_d_def x_def y_def)
  show mf0: "0 \<le> movementFactor_d bands"
    unfolding mfd by (rule double_nonneg [OF s0])
  have "double x + double y \<le> (x + y) * w"
    using dx dy by (simp add: algebra_simps)
  then have "(double x + double y) * w \<le> (x + y) * w * w"
    using w(2) by (rule mult_right_mono)
  moreover have "double (double x + double y) \<le> (double x + double y) * w"
    unfolding w_def by (rule double_upper [OF s0])
  ultimately have mf: "movementFactor_d bands \<le> (x + y) * w * w"
    unfolding mfd by linarith
  have h0: "0 \<le> movementFactor_d bands * h" using mf0 h by simp
  have "double (movementFactor_d bands * h) \<le> movementFactor_d bands * h * w"
    unfolding w_def by (rule double_upper [OF h0])
  also have "\<dots> \<le> (x + y) * w * w * h * w"
    using mf w(2) h by (intro mult_right_mono) simp_all
  finally have p: "double (movementFactor_d bands * h) \<le> (x + y) * h * (w * w * w)"
    by (simp add: algebra_simps)
  have p0: "0 \<le> double (movementFactor_d bands * h)" by (rule double_nonneg [OF h0])
  have c0: "0 \<le> h + double (movementFactor_d bands * h)" using p0 h by simp
  show "0 \<le> double (0.5 + double (movementFactor_d bands * 0.5))"
    using double_nonneg [OF c0] by (simp add: h_def)
  have "1 * 1 \<le> w * w" using w by (intro mult_mono) simp_all
  then have w2: "1 \<le> w * w" by simp
  have "1 * 1 \<le> w * w * w" using w2 w by (intro mult_mono) simp_all
  then have w3: "1 \<le> w * w * w" by simp
  have "h * 1 \<le> h * (w * w * w)" using w3 h by (rule mult_left_mono)
  then have "h \<le> h * (w * w * w)" by simp
  with p have "h + double (movementFactor_d bands * h) \<le> (h + (x + y) * h) * (w * w * w)"
    by (simp add: algebra_simps)
  then have "(h + double (movementFactor_d bands * h)) * w
      \<le> (h + (x + y) * h) * (w * w * w) * w"
    using w(2) by (rule mult_right_mono)
  moreover have "double (h + double (movementFactor_d bands * h))
      \<le> (h + double (movementFactor_d bands * h)) * w"
    unfolding w_def by (rule double_upper [OF c0])
  ultimately have "double (h + double (movementFactor_d bands * h))
      \<le> (h + (x + y) * h) * (w * w * w) * w"
    by linarith
  also have "\<dots> = (h + (x + y) * h) * w ^ 4"
    by (simp add: power4_eq_xxxx)
  finally show "double (0.5 + double (movementFactor_d bands * 0.5))
           \<le> (0.5 + (transient bands * 2 + mid bands * 1.5) * 0.5) * (1 + unit_roundoff) ^ 4"
    by (simp add: h_def x_def y_def w_def)
qed

lemma limitVelocity_d_bound:
  assumes M: "0 \<le> double (0.5 + double (movementFactor_d bands * 0.5))"
  shows "\<exists>v. limitVelocity_d c bands = Inr v \<and>
           sqrt ((velocityX v)\<^sup>2 + (velocityY v)\<^sup>2)
             \<le> double (0.5 + double (movementFactor_d bands * 0.5))
                 * ((1 + unit_roundoff)\<^sup>2 / (1 - unit_roundoff)\<^sup>2)"
proof -
  define M where "M = double (0.5 + double (movementFactor_d bands * 0.5))"
  define a where "a = velocityX c"
  define b where "b = velocityY c"
  define m where "m = double (sqrt (double (double (a * a) + double (b * b))))"
  define r where "r = sqrt (a * a + b * b)"
  define lo where "lo = (1 - unit_roundoff)\<^sup>2"
  define hi where "hi = (1 + unit_roundoff)\<^sup>2"
  have M0: "0 \<le> M" using M by (simp add: M_def)
  have lo: "0 < lo" using unit_roundoff_less_one by (simp add: lo_def)
  have hi: "1 \<le> hi" using unit_roundoff_pos by (simp add: hi_def)
  have r0: "0 \<le> r" by (simp add: r_def)
  have rm: "r * lo \<le> m"
    unfolding r_def lo_def m_def by (rule computed_magnitude_lower)
  have "0 \<le> r * lo" using r0 lo by (intro mult_nonneg_nonneg) simp_all
  with rm have m0: "0 \<le> m" by linarith
  show ?thesis
  proof (cases "m > M")
    case False
    then have v: "limitVelocity_d c bands = Inr c"
      by (simp add: limitVelocity_d_def Let_def m_def M_def a_def b_def)
    have "r * lo \<le> M" using rm False by simp
    then have "r \<le> M / lo" using lo by (simp add: pos_le_divide_eq)
    also have "\<dots> \<le> M * hi / lo"
    proof -
      have "M * 1 \<le> M * hi" using hi M0 by (rule mult_left_mono)
      then show ?thesis using lo by (simp add: divide_right_mono)
    qed
    finally have "sqrt ((velocityX c)\<^sup>2 + (velocityY c)\<^sup>2) \<le> M * (hi / lo)"
      by (simp add: r_def a_def b_def power2_eq_square)
    with v show ?thesis by (simp add: M_def hi_def lo_def)
  next
    case True
    with M0 have mpos: "0 < m" by simp
    define g where "g = M * hi / m"
    have g0: "0 \<le> g" using M0 hi mpos by (simp add: g_def)
    let ?p = "double (double (a / m) * M)"
    let ?q = "double (double (b / m) * M)"
    have v: "limitVelocity_d c bands = Inr (c\<lparr>velocityX := ?p, velocityY := ?q\<rparr>)"
      using True mpos by (simp add: limitVelocity_d_def Let_def m_def M_def a_def b_def)
    have "\<bar>?p\<bar> \<le> \<bar>a\<bar> * g" "\<bar>?q\<bar> \<le> \<bar>b\<bar> * g"
      unfolding g_def hi_def by (rule rescaled_component [OF mpos M0])+
    then have "sqrt (?p\<^sup>2 + ?q\<^sup>2) \<le> r * g"
      unfolding r_def using g0 by (rule magnitude_scaled)
    also have "r * g \<le> M * (hi / lo)"
    proof -
      have "r \<le> m / lo" using rm lo by (simp add: pos_le_divide_eq)
      then have "r * g \<le> m / lo * g" using g0 by (rule mult_right_mono)
      also have "\<dots> = M * (hi / lo)" using mpos by (simp add: g_def)
      finally show ?thesis .
    qed
    finally show ?thesis using v by (simp add: M_def hi_def lo_def)
  qed
qed

lemma rounding_slack:
  "(1 + unit_roundoff) ^ 4 * ((1 + unit_roundoff)\<^sup>2 / (1 - unit_roundoff)\<^sup>2) \<le> 1 + 1 / 2 ^ 49"
proof -
  have pos: "0 < (1 - unit_roundoff)\<^sup>2"
    using unit_roundoff_less_one by simp
  have "(1 + unit_roundoff) ^ 6 \<le> (1 + 1 / 2 ^ 49) * (1 - unit_roundoff)\<^sup>2"
    by (simp add: unit_roundoff_def field_simps)
  then have quot: "(1 + unit_roundoff) ^ 6 / (1 - unit_roundoff)\<^sup>2 \<le> 1 + 1 / 2 ^ 49"
    using pos by (simp only: pos_divide_le_eq)
  have "(1 + unit_roundoff) ^ 4 * (1 + unit_roundoff)\<^sup>2 = (1 + unit_roundoff) ^ (4 + 2)"
    by (simp only: power_add)
  then have six: "(1 + unit_roundoff) ^ 4 * (1 + unit_roundoff)\<^sup>2 = (1 + unit_roundoff) ^ 6"
    by simp
  have "(1 + unit_roundoff) ^ 4 * ((1 + unit_roundoff)\<^sup>2 / (1 - unit_roundoff)\<^sup>2)
      = (1 + unit_roundoff) ^ 4 * (1 + unit_roundoff)\<^sup>2 / (1 - unit_roundoff)\<^sup>2"
    by (rule times_divide_eq_right)
  also have "\<dots> = (1 + unit_roundoff) ^ 6 / (1 - unit_roundoff)\<^sup>2"
    by (simp only: six)
  also note quot
  finally show ?thesis .
qed


text \<open>
  C2 (amended): for any bands with non-negative transient and mid components, which
  are the bands \<open>simulateAudioBands\<close> produces, and any prior velocity, a single call of
  \<open>updateSpherePosition\<close> in double arithmetic returns, and the magnitude
  \<open>sqrt (velocityX\<^sup>2 + velocityY\<^sup>2)\<close> of the stored velocity does not exceed
  \<open>0.5 + movementFactor * 0.5\<close> by more than the relative rounding error \<open>1 / 2 ^ 49\<close>,
  where \<open>movementFactor = transient * 2 + mid * 1.5\<close>.
\<close>

theorem velocity_capped_up_to_rounding:
  assumes "0 \<le> transient bands" and "0 \<le> mid bands"
  shows "\<exists>c' p. updateSpherePosition_d canvasSize c centerX centerY bands deltaTime rndX rndY
                  = Inr (c', p) \<and>
           sqrt ((velocityX c')\<^sup>2 + (velocityY c')\<^sup>2)
             \<le> (0.5 + (transient bands * 2 + mid bands * 1.5) * 0.5) * (1 + 1 / 2 ^ 49)"
proof -
  define M where "M = double (0.5 + double (movementFactor_d bands * 0.5))"
  define cap where "cap = 0.5 + (transient bands * 2 + mid bands * 1.5) * 0.5"
  define K where "K = (1 + unit_roundoff)\<^sup>2 / (1 - unit_roundoff)\<^sup>2"
  have M0: "0 \<le> M" and Mcap: "M \<le> cap * (1 + unit_roundoff) ^ 4"
    unfolding M_def cap_def by (rule cap_d_upper [OF assms])+
  have cap0: "0 \<le> cap" using assms by (simp add: cap_def)
  have K0: "0 \<le> K" by (simp add: K_def)
  from limitVelocity_d_bound [of bands "dampVelocity_d (addAcceleration_d c bands rndX rndY)"]
  obtain v where
    v: "limitVelocity_d (dampVelocity_d (addAcceleration_d c bands rndX rndY)) bands = Inr v"
    and b: "sqrt ((velocityX v)\<^sup>2 + (velocityY v)\<^sup>2) \<le> M * K"
    using M0 unfolding M_def K_def by blast
  have "M * K \<le> cap * (1 + unit_roundoff) ^ 4 * K"
    using Mcap K0 by (rule mult_right_mono)
  also have "\<dots> = cap * ((1 + unit_roundoff) ^ 4 * K)" by simp
  also have "\<dots> \<le> cap * (1 + 1 / 2 ^ 49)"
    using rounding_slack cap0 unfolding K_def by (rule mult_left_mono)
  finally have "sqrt ((velocityX v)\<^sup>2 + (velocityY v)\<^sup>2) \<le> cap * (1 + 1 / 2 ^ 49)"
    using b by linarith
  then show ?thesis
    using v unfolding cap_def by (simp add: updateSpherePosition_d_def Let_def)
qed

theorem velocity_capped_up_to_rounding_witness:
  "0 \<le> transient silentBands \<and> 0 \<le> mid silentBands \<and>
   resultVelocity (updateSpherePosition_d 300 fastConfig 150 150 silentBands 40 0.5 0.5)
     = Some (6369051672525773 / 18014398509481984, 6369051672525773 / 18014398509481984) \<and>
   sqrt ((6369051672525773 / 18014398509481984)\<^sup>2 + (6369051672525773 / 18014398509481984)\<^sup>2)
     \<le> (0.5 + (transient silentBands * 2 + mid silentBands * 1.5) * 0.5) * (1 + 1 / 2 ^ 49)"
proof -
  have h: "0 \<le> transient silentBands" "0 \<le> mid silentBands"
    by (simp_all add: silentBands_def)
  from velocity_capped_up_to_rounding [OF h, of 300 fastConfig 150 150 40 "0.5" "0.5"]
  obtain c' p where
    r: "updateSpherePosition_d 300 fastConfig 150 150 silentBands 40 0.5 0.5 = Inr (c', p)"
    and b: "sqrt ((velocityX c')\<^sup>2 + (velocityY c')\<^sup>2)
      \<le> (0.5 + (transient silentBands * 2 + mid silentBands * 1.5) * 0.5) * (1 + 1 / 2 ^ 49)"
    by blast
  from fast_velocity r have "velocityX c' = 6369051672525773 / 18014398509481984" "velocityY c' = 6369051672525773 / 18014398509481984"
    by (simp_all add: resultVelocity_def)
  with b h fast_velocity show ?thesis by simp
qed

section \<open>Animation callback\<close>

lemma drawFrame_defined:
  "\<exists>s'. drawFrame props env s = Inr s'"
proof -
  define deltaTime where "deltaTime = envTimestamp env - lastFrameTime s"
  define bands where "bands = simulateAudioBands (propAudioLevel props) (propState props)
      (timeRef s + deltaTime) (envRndBand env)"
  define config where "config = (sphereConfigRef s)
      \<lparr>rotation := rotation (sphereConfigRef s) + 0.005 * (1 + mid bands * 0.7),
       distortion := high bands * 0.3\<rparr>"
  have "0 \<le> 0.5 + movementFactor bands * 0.5"
    using movementFactor_simulated_nonneg
      [of "propAudioLevel props" "propState props" "timeRef s + deltaTime" "envRndBand env"]
    by (simp add: bands_def)
  from updateSpherePosition_velocity_bound [OF this]
  obtain c' p where u: "updateSpherePosition (propSize props) config (envWidth env / 2)
      (envHeight env / 2) bands deltaTime (envRndX env) (envRndY env) = Inr (c', p)"
    by blast
  obtain colors where "paletteOf (propState props) = Some colors"
    using paletteOf_defined by blast
  with u show ?thesis
    unfolding drawFrame_def Let_def deltaTime_def [symmetric] bands_def [symmetric]
      config_def [symmetric]
    by simp
qed

lemma drawFrame_effect:
  assumes "drawFrame props env s = Inr s'"
  shows "timeRef s' = timeRef s + (envTimestamp env - lastFrameTime s)"
    and "colorCycleRef s' = colorCycleRef s + (envTimestamp env - lastFrameTime s) * 0.0001"
    and "lastFrameTime s' = envTimestamp env"
    and "\<exists>f. frames s' = frames s @ [f] \<and> frameTimestamp f = envTimestamp env"
    and "animationRef s' = animationRef s"
    and "nextHandle s' = nextHandle s"
    and "cancelled s' = cancelled s"
  using assms
  by (auto simp add: drawFrame_def Let_def split: sum.splits option.splits)


lemma requestFrame_fields [simp]:
  "animationRef (requestFrame s) = Suc (nextHandle s)"
  "lastFrameTime (requestFrame s) = lastFrameTime s"
  "timeRef (requestFrame s) = timeRef s"
  "colorCycleRef (requestFrame s) = colorCycleRef s"
  "frames (requestFrame s) = frames s"
  "cancelled (requestFrame s) = cancelled s"
  by (simp_all add: requestFrame_def)

lemma initialState_fields [simp]:
  "animationRef (initialState canvasSize now handle) = 0"
  "lastFrameTime (initialState canvasSize now handle) = now"
  "timeRef (initialState canvasSize now handle) = 0"
  "colorCycleRef (initialState canvasSize now handle) = 0"
  "frames (initialState canvasSize now handle) = []"
  "cancelled (initialState canvasSize now handle) = []"
  "nextHandle (initialState canvasSize now handle) = handle"
  by (simp_all add: initialState_def)

lemma animate_skip:
  assumes "animationRef s \<noteq> 0" and "envTimestamp env - lastFrameTime s < frameInterval"
  shows "animate props env s = Inr (requestFrame s)"
  using assms by (simp add: animate_def)

lemma animate_draw:
  assumes "animationRef s \<noteq> 0" and "frameInterval \<le> envTimestamp env - lastFrameTime s"
    and "envHasContext env"
  shows "\<exists>d. drawFrame props env s = Inr d \<and> animate props env s = Inr (requestFrame d)"
proof -
  obtain d where "drawFrame props env s = Inr d"
    using drawFrame_defined by blast
  then show ?thesis using assms by (simp add: animate_def)
qed

lemma animate_cases:
  assumes "animate props env s = Inr s'"
  obtains (idle) "s' = s"
  | (skipped) "envTimestamp env - lastFrameTime s < frameInterval" "s' = requestFrame s"
  | (drawn) d where "frameInterval \<le> envTimestamp env - lastFrameTime s"
      "drawFrame props env s = Inr d" "s' = requestFrame d"
proof (cases "animationRef s = 0")
  case True
  with assms have "s' = s" by (simp add: animate_def)
  then show ?thesis by (rule idle)
next
  case running: False
  show ?thesis
  proof (cases "frameInterval \<le> envTimestamp env - lastFrameTime s")
    case False
    with running assms have "s' = requestFrame s" by (simp add: animate_def)
    with False show ?thesis by (intro skipped) simp_all
  next
    case late: True
    show ?thesis
    proof (cases "envHasContext env")
      case False
      with running late assms have "s' = s" by (simp add: animate_def)
      then show ?thesis by (rule idle)
    next
      case True
      from animate_draw [OF running late True, of props] obtain d where
        d: "drawFrame props env s = Inr d" "animate props env s = Inr (requestFrame d)"
        by blast
      with assms have "s' = requestFrame d" by simp
      with late d(1) show ?thesis by (intro drawn)
    qed
  qed
qed

lemma animate_defined: "\<exists>s'. animate props env s = Inr s'"
proof -
  obtain d where "drawFrame props env s = Inr d"
    using drawFrame_defined by blast
  then show ?thesis by (simp add: animate_def)
qed

lemma animateAll_invariant:
  assumes step: "\<And>env s s'. P s \<Longrightarrow> animate props env s = Inr s' \<Longrightarrow> P s'"
    and init: "P s"
  shows "\<exists>s'. animateAll props envs s = Inr s' \<and> P s'"
  using init
proof (induction envs arbitrary: s)
  case Nil
  then show ?case by simp
next
  case (Cons env envs)
  obtain s1 where s1: "animate props env s = Inr s1"
    using animate_defined by blast
  from step [OF Cons.prems s1] have "P s1" .
  from Cons.IH [OF this] show ?case using s1 by simp
qed

subsection \<open>Throttling\<close>

lemma animate_skips_early_callback:
  assumes "animate props env s = Inr s'"
    and "envTimestamp env - lastFrameTime s < frameInterval"
  shows "frames s' = frames s \<and> timeRef s' = timeRef s \<and>
         colorCycleRef s' = colorCycleRef s \<and> lastFrameTime s' = lastFrameTime s"
  using assms(1)
proof (cases rule: animate_cases)
  case idle
  then show ?thesis by simp
next
  case skipped
  then show ?thesis by simp
next
  case (drawn d)
  with assms(2) show ?thesis by simp
qed

lemma animate_accumulators_only_when_drawn:
  assumes "animate props env s = Inr s'" and "frames s' = frames s"
  shows "timeRef s' = timeRef s \<and> colorCycleRef s' = colorCycleRef s"
  using assms(1)
proof (cases rule: animate_cases)
  case idle
  then show ?thesis by simp
next
  case skipped
  then show ?thesis by simp
next
  case (drawn d)
  from drawFrame_effect(4) [OF drawn(2)] obtain f where "frames d = frames s @ [f]"
    by blast
  with drawn(3) assms(2) show ?thesis by simp
qed

lemma accumulate_scaled:
  fixes c l n e k :: real
  assumes "c = (l - n) * k"
  shows "c + (e - l) * k = (e - n) * k"
  unfolding assms by (simp add: algebra_simps)

lemma throttled_requestFrame: "throttled now (requestFrame s) = throttled now s"
  by (simp add: throttled_def)

lemma throttled_drawFrame:
  assumes inv: "throttled now s" and d: "drawFrame props env s = Inr d"
    and late: "frameInterval \<le> envTimestamp env - lastFrameTime s"
  shows "throttled now d"
proof -
  from drawFrame_effect(4) [OF d] obtain f where
    f: "frames d = frames s @ [f]" "frameTimestamp f = envTimestamp env"
    by blast
  have pos: "0 < frameInterval" by (simp add: frameInterval_def)
  have old: "\<forall>g\<in>set (frames s). frameTimestamp g \<le> lastFrameTime s"
    using inv by (simp add: throttled_def list_all_iff)
  have "spacedFrames (frames d)"
    using inv old late
    by (auto simp add: throttled_def spacedFrames_def f sorted_wrt_append)
  moreover have "list_all (\<lambda>g. frameTimestamp g \<le> lastFrameTime d) (frames d)"
    using old late pos
    by (auto simp add: f drawFrame_effect(3) [OF d] list_all_iff)
  moreover have "timeRef d = lastFrameTime d - now"
    using inv by (simp add: throttled_def drawFrame_effect(1,3) [OF d])
  moreover have "colorCycleRef d = (lastFrameTime d - now) * 0.0001"
  proof -
    have "colorCycleRef s = (lastFrameTime s - now) * 0.0001"
      using inv by (simp add: throttled_def)
    then show ?thesis
      unfolding drawFrame_effect(2,3) [OF d] by (rule accumulate_scaled)
  qed
  ultimately show ?thesis by (simp add: throttled_def)
qed

lemma throttled_animate:
  assumes "throttled now s" and "animate props env s = Inr s'"
  shows "throttled now s'"
  using assms(2)
proof (cases rule: animate_cases)
  case idle
  then show ?thesis using assms(1) by simp
next
  case skipped
  then show ?thesis using assms(1) by (simp add: throttled_requestFrame)
next
  case (drawn d)
  then show ?thesis
    using throttled_drawFrame [OF assms(1) drawn(2) drawn(1)]
    by (simp add: throttled_requestFrame)
qed

lemma throttled_initial: "throttled now (requestFrame (initialState canvasSize now handle))"
  by (simp add: throttled_def spacedFrames_def initialState_def requestFrame_def)

lemma spacedFrames_nth:
  assumes "spacedFrames fs" and "i < j" and "j < length fs"
  shows "frameInterval \<le> frameTimestamp (fs ! j) - frameTimestamp (fs ! i)"
  using assms by (simp add: spacedFrames_def sorted_wrt_iff_nth_less)

text \<open>
  C7: in any run of the animation callback from the mounted component, any two drawn
  frames are at least \<open>frameInterval = 1000 / 30\<close> ms apart; a callback invoked less than
  \<open>frameInterval\<close> after the last drawn frame draws nothing and leaves the time and
  colour-cycle accumulators and \<open>lastFrameTime\<close> as they were; an invocation that draws
  nothing never changes the accumulators, which after the run hold exactly the time from
  the start to the last drawn frame.
\<close>

theorem frame_throttling:
  "(\<exists>s'. animateAll props envs (requestFrame (initialState canvasSize now handle)) = Inr s' \<and>
      (\<forall>i j. i < j \<and> j < length (frames s') \<longrightarrow>
         frameInterval \<le> frameTimestamp (frames s' ! j) - frameTimestamp (frames s' ! i)) \<and>
      timeRef s' = lastFrameTime s' - now \<and>
      colorCycleRef s' = (lastFrameTime s' - now) * 0.0001) \<and>
   (\<forall>env s s'. animate props env s = Inr s' \<and>
        envTimestamp env - lastFrameTime s < frameInterval \<longrightarrow>
        frames s' = frames s \<and> timeRef s' = timeRef s \<and>
        colorCycleRef s' = colorCycleRef s \<and> lastFrameTime s' = lastFrameTime s) \<and>
   (\<forall>env s s'. animate props env s = Inr s' \<and> frames s' = frames s \<longrightarrow>
        timeRef s' = timeRef s \<and> colorCycleRef s' = colorCycleRef s) \<and>
   frameInterval = 1000 / 30"
proof (intro conjI)
  have "\<exists>s'. animateAll props envs (requestFrame (initialState canvasSize now handle)) = Inr s'
          \<and> throttled now s'"
  proof (rule animateAll_invariant)
    fix env s s'
    assume "throttled now s" and "animate props env s = Inr s'"
    then show "throttled now s'" by (rule throttled_animate)
  next
    show "throttled now (requestFrame (initialState canvasSize now handle))"
      by (rule throttled_initial)
  qed
  then obtain s' where run: "animateAll props envs (requestFrame (initialState canvasSize now handle))
      = Inr s'" and inv: "throttled now s'"
    by blast
  from inv have "\<forall>i j. i < j \<and> j < length (frames s') \<longrightarrow>
         frameInterval \<le> frameTimestamp (frames s' ! j) - frameTimestamp (frames s' ! i)"
    by (auto simp add: throttled_def intro: spacedFrames_nth)
  with run inv
  show "\<exists>s'. animateAll props envs (requestFrame (initialState canvasSize now handle)) = Inr s' \<and>
      (\<forall>i j. i < j \<and> j < length (frames s') \<longrightarrow>
         frameInterval \<le> frameTimestamp (frames s' ! j) - frameTimestamp (frames s' ! i)) \<and>
      timeRef s' = lastFrameTime s' - now \<and>
      colorCycleRef s' = (lastFrameTime s' - now) * 0.0001"
    by (auto simp add: throttled_def)
next
  show "\<forall>env s s'. animate props env s = Inr s' \<and>
        envTimestamp env - lastFrameTime s < frameInterval \<longrightarrow>
        frames s' = frames s \<and> timeRef s' = timeRef s \<and>
        colorCycleRef s' = colorCycleRef s \<and> lastFrameTime s' = lastFrameTime s"
    using animate_skips_early_callback by blast
next
  show "\<forall>env s s'. animate props env s = Inr s' \<and> frames s' = frames s \<longrightarrow>
        timeRef s' = timeRef s \<and> colorCycleRef s' = colorCycleRef s"
    using animate_accumulators_only_when_drawn by blast
next
  show "frameInterval = 1000 / 30" by (simp add: frameInterval_def)
qed

theorem frame_throttling_witness:
  "\<exists>s'. animateAll exampleProps [exampleEnv 10, exampleEnv 40, exampleEnv 50, exampleEnv 90]
           (requestFrame (initialState 300 0 0)) = Inr s' \<and>
        map frameTimestamp (frames s') = [40, 90] \<and>
        frameInterval \<le> frameTimestamp (frames s' ! 1) - frameTimestamp (frames s' ! 0) \<and>
        timeRef s' = 90 \<and> colorCycleRef s' = 0.009 \<and>
        animate exampleProps (exampleEnv 10) (requestFrame (initialState 300 0 0))
          = Inr (requestFrame (requestFrame (initialState 300 0 0))) \<and>
        timeRef (requestFrame (requestFrame (initialState 300 0 0)))
          = timeRef (requestFrame (initialState 300 0 0))"
proof -
  let ?s0 = "requestFrame (initialState 300 0 0)"
  let ?s1 = "requestFrame ?s0"
  have s0: "animationRef ?s0 \<noteq> 0" "lastFrameTime ?s0 = 0" "frames ?s0 = []"
    by (simp_all add: initialState_def requestFrame_def)
  have a1: "animate exampleProps (exampleEnv 10) ?s0 = Inr ?s1"
    by (rule animate_skip) (simp_all add: s0 exampleEnv_def frameInterval_def)
  have s1: "animationRef ?s1 \<noteq> 0" "lastFrameTime ?s1 = 0" "frames ?s1 = []"
    using s0 by simp_all
  obtain d2 where d2: "drawFrame exampleProps (exampleEnv 40) ?s1 = Inr d2"
    and a2: "animate exampleProps (exampleEnv 40) ?s1 = Inr (requestFrame d2)"
    using animate_draw [of ?s1 "exampleEnv 40" exampleProps] s0 s1
    by (auto simp add: exampleEnv_def frameInterval_def)
  from drawFrame_effect(4) [OF d2] obtain f where
    f: "frames d2 = [f]" "frameTimestamp f = 40"
    using s0 s1 by (auto simp add: exampleEnv_def)
  have l2: "lastFrameTime d2 = 40"
    using drawFrame_effect(3) [OF d2] by (simp add: exampleEnv_def)
  let ?s2 = "requestFrame d2"
  let ?s3 = "requestFrame ?s2"
  have a3: "animate exampleProps (exampleEnv 50) ?s2 = Inr ?s3"
    by (rule animate_skip) (simp_all add: l2 exampleEnv_def frameInterval_def)
  obtain d4 where d4: "drawFrame exampleProps (exampleEnv 90) ?s3 = Inr d4"
    and a4: "animate exampleProps (exampleEnv 90) ?s3 = Inr (requestFrame d4)"
    using animate_draw [of ?s3 "exampleEnv 90" exampleProps] l2
    by (auto simp add: exampleEnv_def frameInterval_def)
  from drawFrame_effect(4) [OF d4] obtain g where
    g: "frames d4 = [f, g]" "frameTimestamp g = 90"
    using f by (auto simp add: exampleEnv_def)
  have l4: "lastFrameTime d4 = 90"
    using drawFrame_effect(3) [OF d4] by (simp add: exampleEnv_def)
  let ?s4 = "requestFrame d4"
  have run: "animateAll exampleProps [exampleEnv 10, exampleEnv 40, exampleEnv 50, exampleEnv 90]
           ?s0 = Inr ?s4"
    by (simp add: a1 a2 a3 a4)
  note t = frame_throttling [of exampleProps
      "[exampleEnv 10, exampleEnv 40, exampleEnv 50, exampleEnv 90]" 300 0 0]
  from t run have sp: "\<forall>i j. i < j \<and> j < length (frames ?s4) \<longrightarrow>
      frameInterval \<le> frameTimestamp (frames ?s4 ! j) - frameTimestamp (frames ?s4 ! i)"
    and acc: "timeRef ?s4 = lastFrameTime ?s4 - 0"
      "colorCycleRef ?s4 = (lastFrameTime ?s4 - 0) * 0.0001"
    by auto
  have "frameInterval \<le> frameTimestamp (frames ?s4 ! 1) - frameTimestamp (frames ?s4 ! 0)"
  proof -
    have "(0::nat) < 1 \<and> 1 < length (frames ?s4)" using g by simp
    with sp show ?thesis by blast
  qed
  moreover from t a1 have "timeRef ?s1 = timeRef ?s0"
    using s0 by (simp add: exampleEnv_def frameInterval_def)
  ultimately show ?thesis
    using run a1 acc g f l4 by simp
qed

subsection \<open>Colour cycle\<close>

lemma js_rem_nonneg:
  assumes "0 \<le> a" and "0 < b"
  shows "\<exists>k. js_rem a b = Some k \<and> 0 \<le> k \<and> k < b"
proof (cases "a = 0")
  case True
  with assms show ?thesis by (simp add: js_rem_def)
next
  case False
  with assms have "sgn a = 1" by simp
  with assms show ?thesis by (simp add: js_rem_def)
qed

lemma colorIndex_range:
  assumes "paletteOf st = Some colors" and "0 \<le> colorCycle"
  shows "\<exists>k. colorIndex colors colorCycle i = Some k \<and> 0 \<le> k \<and> k \<le> 4"
proof -
  have len: "int (length (object_keys colors)) = 5"
    using paletteOf_keys [OF assms(1)] by (simp add: paletteKeys_def)
  have "0 \<le> int i + \<lfloor>colorCycle\<rfloor>" using assms(2) by simp
  from js_rem_nonneg [OF this, of 5] show ?thesis
    unfolding colorIndex_def len by auto
qed

lemma palette_entry_defined:
  assumes "paletteOf st = Some colors" and "n < 5"
  shows "definedColor (map_of colors (object_keys colors ! n))"
proof -
  from assms(2) have "n = 0 \<or> n = 1 \<or> n = 2 \<or> n = 3 \<or> n = 4" by arith
  moreover have "colors = the (paletteOf st)" using assms(1) by simp
  ultimately show ?thesis
    by (cases st)
      (auto simp add: paletteOf_def statePalettes_def object_keys_def definedColor_def)
qed

lemma arcColor_defined:
  assumes "paletteOf st = Some colors" and "0 \<le> colorCycle"
  shows "definedColor (arcColor colors colorCycle i)"
proof -
  from colorIndex_range [OF assms] obtain k where
    k: "colorIndex colors colorCycle i = Some k" "0 \<le> k" "k \<le> 4"
    by blast
  have len: "length (object_keys colors) = 5"
    using paletteOf_keys [OF assms(1)] by (simp add: paletteKeys_def)
  have n: "nat k < 5" using k by simp
  from palette_entry_defined [OF assms(1) n] show ?thesis
    using k n by (simp add: arcColor_def len)
qed

lemma animate_colorCycle:
  assumes "animate props env s = Inr s'"
  shows "colorCycleRef s' = colorCycleRef s \<or>
         (frameInterval \<le> envTimestamp env - lastFrameTime s \<and>
          colorCycleRef s' = colorCycleRef s + (envTimestamp env - lastFrameTime s) * 0.0001)"
  using assms
proof (cases rule: animate_cases)
  case idle
  then show ?thesis by simp
next
  case skipped
  then show ?thesis by simp
next
  case (drawn d)
  then show ?thesis using drawFrame_effect(2) [OF drawn(2)] by simp
qed

lemma animate_colorCycle_nonneg:
  assumes "0 \<le> colorCycleRef s" and "animate props env s = Inr s'"
  shows "0 \<le> colorCycleRef s'"
proof -
  have "0 < frameInterval" by (simp add: frameInterval_def)
  with animate_colorCycle [OF assms(2)] assms(1) show ?thesis
    by (auto intro: add_nonneg_nonneg)
qed

text \<open>
  C6: for the palette of any agent state, any non-negative colour-cycle value and any arc
  index, the colour index \<open>(i + floor colorCycle) % 5\<close> lies in 0..4 and selects a defined
  colour of the palette; and the colour-cycle accumulator is non-negative after any run of
  the animation callback, because an invocation either leaves it alone or adds
  \<open>deltaTime * 0.0001\<close> for a \<open>deltaTime\<close> of at least \<open>frameInterval\<close>.
\<close>

theorem color_index_in_range:
  "(\<forall>st colors colorCycle i. paletteOf st = Some colors \<and> 0 \<le> colorCycle \<longrightarrow>
      (\<exists>k. colorIndex colors colorCycle i = Some k \<and> 0 \<le> k \<and> k \<le> 4) \<and>
      definedColor (arcColor colors colorCycle i)) \<and>
   (\<exists>s'. animateAll props envs (requestFrame (initialState canvasSize now handle)) = Inr s' \<and>
      0 \<le> colorCycleRef s') \<and>
   (\<forall>env s s'. animate props env s = Inr s' \<longrightarrow>
      colorCycleRef s' = colorCycleRef s \<or>
      (frameInterval \<le> envTimestamp env - lastFrameTime s \<and>
       colorCycleRef s' = colorCycleRef s + (envTimestamp env - lastFrameTime s) * 0.0001))"
proof (intro conjI)
  show "\<forall>st colors colorCycle i. paletteOf st = Some colors \<and> 0 \<le> colorCycle \<longrightarrow>
      (\<exists>k. colorIndex colors colorCycle i = Some k \<and> 0 \<le> k \<and> k \<le> 4) \<and>
      definedColor (arcColor colors colorCycle i)"
    using colorIndex_range arcColor_defined by blast
next
  show "\<exists>s'. animateAll props envs (requestFrame (initialState canvasSize now handle)) = Inr s' \<and>
      0 \<le> colorCycleRef s'"
  proof (rule animateAll_invariant)
    fix env s s'
    assume "0 \<le> colorCycleRef s" and "animate props env s = Inr s'"
    then show "0 \<le> colorCycleRef s'" by (rule animate_colorCycle_nonneg)
  next
    show "0 \<le> colorCycleRef (requestFrame (initialState canvasSize now handle))"
      by (simp add: initialState_def)
  qed
next
  show "\<forall>env s s'. animate props env s = Inr s' \<longrightarrow>
      colorCycleRef s' = colorCycleRef s \<or>
      (frameInterval \<le> envTimestamp env - lastFrameTime s \<and>
       colorCycleRef s' = colorCycleRef s + (envTimestamp env - lastFrameTime s) * 0.0001)"
    using animate_colorCycle by blast
qed

theorem color_index_in_range_witness:
  "paletteOf speaking =
     Some [(''primary'', ''#D3E4FD''), (''secondary'', ''#1EAEDB''), (''tertiary'', ''#D6BCFA''),
           (''accent'', ''#0FA0CE''), (''highlight'', ''#FFDEE2'')] \<and>
   (0::real) \<le> 7.3 \<and>
   (\<exists>k. colorIndex [(''primary'', ''#D3E4FD''), (''secondary'', ''#1EAEDB''),
           (''tertiary'', ''#D6BCFA''), (''accent'', ''#0FA0CE''), (''highlight'', ''#FFDEE2'')]
           7.3 2 = Some k \<and> 0 \<le> k \<and> k \<le> 4) \<and>
   colorIndex [(''primary'', ''#D3E4FD''), (''secondary'', ''#1EAEDB''),
           (''tertiary'', ''#D6BCFA''), (''accent'', ''#0FA0CE''), (''highlight'', ''#FFDEE2'')]
           7.3 2 = Some 4 \<and>
   arcColor [(''primary'', ''#D3E4FD''), (''secondary'', ''#1EAEDB''),
           (''tertiary'', ''#D6BCFA''), (''accent'', ''#0FA0CE''), (''highlight'', ''#FFDEE2'')]
           7.3 2 = Some ''#FFDEE2'' \<and>
   animate exampleProps (exampleEnv 10) (requestFrame (initialState 300 0 0))
     = Inr (requestFrame (requestFrame (initialState 300 0 0))) \<and>
   colorCycleRef (requestFrame (requestFrame (initialState 300 0 0))) = 0"
proof -
  let ?colors = "[(''primary'', ''#D3E4FD''), (''secondary'', ''#1EAEDB''),
           (''tertiary'', ''#D6BCFA''), (''accent'', ''#0FA0CE''), (''highlight'', ''#FFDEE2'')]"
  let ?s0 = "requestFrame (initialState 300 0 0)"
  have p: "paletteOf speaking = Some ?colors"
    by (simp add: paletteOf_def statePalettes_def)
  have c: "(0::real) \<le> 7.3" by simp
  have a1: "animate exampleProps (exampleEnv 10) ?s0 = Inr (requestFrame ?s0)"
    by (rule animate_skip)
      (simp_all add: initialState_def requestFrame_def exampleEnv_def frameInterval_def)
  note t = color_index_in_range [of exampleProps "[]" 300 0 0]
  from t p c have "\<exists>k. colorIndex ?colors 7.3 2 = Some k \<and> 0 \<le> k \<and> k \<le> 4"
    by blast
  moreover have "colorIndex ?colors 7.3 2 = Some 4"
    by (simp add: colorIndex_def js_rem_def object_keys_def)
  moreover have "arcColor ?colors 7.3 2 = Some ''#FFDEE2''"
    by (simp add: arcColor_def colorIndex_def js_rem_def object_keys_def)
  moreover have "colorCycleRef (requestFrame ?s0) = 0"
    by (simp add: initialState_def)
  ultimately show ?thesis using p c a1 by simp
qed

subsection \<open>Teardown\<close>

text \<open>
  C8: with a non-zero handle, teardown cancels that handle exactly once and sets the handle
  to 0; with a zero handle it cancels nothing and changes nothing; so a second teardown
  in a row has no effect.
\<close>

theorem teardown_idempotent:
  "(animationRef s \<noteq> 0 \<longrightarrow>
      cancelled (teardown s) = cancelled s @ [animationRef s] \<and> animationRef (teardown s) = 0) \<and>
   (animationRef s = 0 \<longrightarrow> teardown s = s) \<and>
   teardown (teardown s) = teardown s"
  by (simp add: teardown_def)

theorem teardown_idempotent_witness:
  "animationRef (requestFrame (initialState 300 0 6)) = 7 \<and>
   cancelled (teardown (requestFrame (initialState 300 0 6))) = [7] \<and>
   animationRef (teardown (requestFrame (initialState 300 0 6))) = 0 \<and>
   teardown (teardown (requestFrame (initialState 300 0 6)))
     = teardown (requestFrame (initialState 300 0 6)) \<and>
   cancelled (teardown (teardown (requestFrame (initialState 300 0 6)))) = [7] \<and>
   animationRef (initialState 300 0 6) = 0 \<and>
   teardown (initialState 300 0 6) = initialState 300 0 6"
proof -
  have h: "animationRef (requestFrame (initialState 300 0 6)) = 7"
    and c: "cancelled (requestFrame (initialState 300 0 6)) = []"
    and z: "animationRef (initialState 300 0 6) = 0"
    by simp_all
  from teardown_idempotent [of "requestFrame (initialState 300 0 6)"]
    teardown_idempotent [of "initialState 300 0 6"] h c z
  show ?thesis by simp
qed

section \<open>Wave points\<close>

lemma waveLoop_collects:
  "i \<le> Suc steps \<Longrightarrow> waveLoop body steps i points = points @ map body [i..<Suc steps]"
proof (induction body steps i points rule: waveLoop.induct)
  case (1 body steps i points)
  show ?case
  proof (cases "i \<le> steps")
    case True
    then have "waveLoop body steps i points = waveLoop body steps (Suc i) (points @ [body i])"
      by (subst waveLoop.simps) simp
    also have "\<dots> = (points @ [body i]) @ map body [Suc i..<Suc steps]"
      using True by (intro "1.IH") simp_all
    also have "\<dots> = points @ map body [i..<Suc steps]"
    proof -
      have "[i..<Suc steps] = i # [Suc i..<Suc steps]"
        using True by (intro upt_conv_Cons) simp
      then show ?thesis by (simp del: upt_Suc)
    qed
    finally show ?thesis .
  next
    case False
    with "1.prems" have "i = Suc steps" by simp
    then show ?thesis by (subst waveLoop.simps) simp
  qed
qed

text \<open>
  C9: \<open>calculateWavePoints\<close> returns 31 points, and for \<open>k\<close> from 0 to 30 the \<open>k\<close>-th point
  lies at angle \<open>startAngle + (endAngle - startAngle) * k / 30\<close> around the centre, at the
  base radius plus the displacement
  \<open>sin (angle * wavePeriod' + time * waveSpeed') * waveFactor' * radius * (1 + high * 0.3)\<close>,
  where \<open>waveFactor' = waveFactor * (1 + high * 0.5)\<close>,
  \<open>wavePeriod' = wavePeriod * (1 - mid * 0.3)\<close> and \<open>waveSpeed' = waveSpeed * (1 + mid * 0.5)\<close>.
\<close>

theorem calculateWavePoints_samples:
  "length (calculateWavePoints centerX centerY radius startAngle endAngle config time bands) = 31 \<and>
   (\<forall>k\<le>30.
      calculateWavePoints centerX centerY radius startAngle endAngle config time bands ! k =
        (let angle = startAngle + (endAngle - startAngle) * real k / 30;
             waveFactor' = waveFactor config * (1 + high bands * 0.5);
             wavePeriod' = wavePeriod config * (1 - mid bands * 0.3);
             waveSpeed' = waveSpeed config * (1 + mid bands * 0.5);
             waveRadius = radius + sin (angle * wavePeriod' + time * waveSpeed') * waveFactor'
                            * radius * (1 + high bands * 0.3)
         in (centerX + cos angle * waveRadius, centerY + sin angle * waveRadius)))"
proof -
  have len: "length [0..<Suc 30] = 31" by simp
  have nth: "[0..<Suc 30] ! k = k" if "k \<le> 30" for k
    using that by (metis add_0 le_imp_less_Suc nth_upt)
  show ?thesis
    unfolding calculateWavePoints_def Let_def
    by (simp add: waveLoop_collects nth_map nth del: upt_Suc)
qed

theorem calculateWavePoints_samples_witness:
  "(30::nat) \<le> 30 \<and>
   length (calculateWavePoints 150 150 100 0 0 (initialWaveConfig 300) 0
             \<lparr>low = 0, mid = 0, high = 0, transient = 0\<rparr>) = 31 \<and>
   calculateWavePoints 150 150 100 0 0 (initialWaveConfig 300) 0
     \<lparr>low = 0, mid = 0, high = 0, transient = 0\<rparr> ! 30 = (250, 150)"
  using calculateWavePoints_samples [of 150 150 100 0 0 "initialWaveConfig 300" 0
      "\<lparr>low = 0, mid = 0, high = 0, transient = 0\<rparr>"]
  by (simp add: initialWaveConfig_def)

end
